theory Spec2Isabelle
  imports Complex_Main "HOL-Library.Char_ord" "HOL-Library.List_Lexorder"
begin

section \<open>Python values used by the bot\<close>

text \<open>
  The bot is one Python module (\<^verbatim>\<open>src/A1.py\<close>) on top of SQLite. Its functions are
  embedded as HOL functions: the database is an explicit value that every operation
  takes and returns, the clock is an argument, and every exception the source can raise
  on the modelled path is a value of \<open>py_error\<close>. A handler returns the data its reply is
  printed from; the Telegram objects, the texts of the replies and the inline keyboard
  (\<open>cmd_start\<close>, \<open>cmd_help\<close>, \<open>on_callback\<close>) are not modelled.
\<close>

datatype py_error = ValueError | IndexError | TypeError | OverflowError

subsection \<open>Text\<close>

text \<open>
  A Python \<open>str\<close> is a \<open>string\<close>. Whitespace, digits and case mapping are those of
  the ASCII range; a character outside it is left alone by \<open>lower\<close> and is never a
  space or a digit. SQLite compares TEXT bytewise, which is the lexicographic order of
  \<open>string\<close> from \<open>List_Lexorder\<close> over \<open>Char_ord\<close>.
\<close>

definition is_space :: "char \<Rightarrow> bool" where
  "is_space c = (c \<in> set [CHR 0x09, CHR 0x0A, CHR 0x0B, CHR 0x0C, CHR 0x0D,
                           CHR 0x1C, CHR 0x1D, CHR 0x1E, CHR 0x1F, CHR 0x20])"

definition is_digit :: "char \<Rightarrow> bool" where
  "is_digit c = (c \<in> set ''0123456789'')"

definition digit_val :: "char \<Rightarrow> nat" where
  "digit_val c = of_char c - 48"

definition digit_char :: "nat \<Rightarrow> char" where
  "digit_char k = ''0123456789'' ! (k mod 10)"

definition digits_to_nat :: "string \<Rightarrow> nat" where
  "digits_to_nat ds = foldl (\<lambda>n c. 10 * n + digit_val c) 0 ds"

text \<open>\<^verbatim>\<open>s.strip()\<close>\<close>

definition strip :: "string \<Rightarrow> string" where
  "strip s = rev (dropWhile is_space (rev (dropWhile is_space s)))"

text \<open>\<^verbatim>\<open>s.split()\<close>: the maximal runs of non-space characters, in order. The first
  argument is the word being read, reversed.\<close>

fun split_acc :: "string \<Rightarrow> string \<Rightarrow> string list" where
  "split_acc w [] = (if w = [] then [] else [rev w])"
| "split_acc w (c # cs) =
     (if is_space c then (if w = [] then split_acc [] cs else rev w # split_acc [] cs)
      else split_acc (c # w) cs)"

definition split_ws :: "string \<Rightarrow> string list" where
  "split_ws s = split_acc [] s"

text \<open>\<^verbatim>\<open>" ".join(xs)\<close>\<close>

fun join_sp :: "string list \<Rightarrow> string" where
  "join_sp [] = []"
| "join_sp [x] = x"
| "join_sp (x # y # ys) = x @ '' '' @ join_sp (y # ys)"

definition lower_char :: "char \<Rightarrow> char" where
  "lower_char c =
     (case map_of (zip ''ABCDEFGHIJKLMNOPQRSTUVWXYZ'' ''abcdefghijklmnopqrstuvwxyz'') c of
        None \<Rightarrow> c
      | Some l \<Rightarrow> l)"

text \<open>\<^verbatim>\<open>s.lower()\<close>\<close>

definition lower :: "string \<Rightarrow> string" where
  "lower s = map lower_char s"

text \<open>\<^verbatim>\<open>s.replace(",", ".")\<close>\<close>

definition replace_comma :: "string \<Rightarrow> string" where
  "replace_comma s = map (\<lambda>c. if c = CHR '','' then CHR ''.'' else c) s"

text \<open>Python's numeric literals may group digits with single underscores: every
  underscore stands between two digits. The first argument is the previous character.\<close>

fun underscores_ok :: "char option \<Rightarrow> string \<Rightarrow> bool" where
  "underscores_ok prev [] = True"
| "underscores_ok prev (c # cs) =
     (if c = CHR ''_''
      then (case prev of None \<Rightarrow> False | Some p \<Rightarrow> is_digit p) \<and>
           (case cs of [] \<Rightarrow> False | d # _ \<Rightarrow> is_digit d) \<and>
           underscores_ok (Some c) cs
      else underscores_ok (Some c) cs)"

definition drop_underscores :: "string \<Rightarrow> string" where
  "drop_underscores s = filter (\<lambda>c. c \<noteq> CHR ''_'') s"

text \<open>An optional sign in front of a literal: whether it is negative, and the rest.\<close>

definition split_sign :: "string \<Rightarrow> bool \<times> string" where
  "split_sign s =
     (case s of
        [] \<Rightarrow> (False, [])
      | c # cs \<Rightarrow> if c = CHR ''-'' then (True, cs)
                  else if c = CHR ''+'' then (False, cs) else (False, s))"

text \<open>\<^verbatim>\<open>int(s)\<close> in base ten: surrounding whitespace, an optional sign, digits.\<close>

definition py_int :: "string \<Rightarrow> py_error + int" where
  "py_int s =
     (let t = strip s;
          neg = fst (split_sign t);
          body = snd (split_sign t);
          ds = drop_underscores body
      in if ds \<noteq> [] \<and> underscores_ok None body \<and> list_all is_digit ds
         then Inr (if neg then - int (digits_to_nat ds) else int (digits_to_nat ds))
         else Inl ValueError)"

subsection \<open>Floats\<close>

text \<open>
  A Python \<open>float\<close>, and a \<open>REAL\<close> of SQLite, is an IEEE 754 binary64 value: a finite
  value, an infinity or NaN. A finite value is the rational it denotes; the two zeros are
  not told apart. Negation, absolute value and comparison are exact; a decimal literal,
  a sum and a rounding to hundredths are rounded to the nearest binary64 value by \<open>b64\<close>.
\<close>

datatype pyfloat = Finite rat | PosInf | NegInf | NaN

fun fneg :: "pyfloat \<Rightarrow> pyfloat" where
  "fneg (Finite q) = Finite (- q)"
| "fneg PosInf = NegInf"
| "fneg NegInf = PosInf"
| "fneg NaN = NaN"

fun fabs :: "pyfloat \<Rightarrow> pyfloat" where
  "fabs (Finite q) = Finite \<bar>q\<bar>"
| "fabs PosInf = PosInf"
| "fabs NegInf = PosInf"
| "fabs NaN = NaN"

text \<open>\<open>x < y\<close> and \<open>x <= y\<close> on floats; every comparison with NaN is false.\<close>

fun flt :: "pyfloat \<Rightarrow> pyfloat \<Rightarrow> bool" where
  "flt NaN y = False"
| "flt x NaN = False"
| "flt (Finite p) (Finite q) = (p < q)"
| "flt (Finite p) PosInf = True"
| "flt (Finite p) NegInf = False"
| "flt PosInf y = False"
| "flt NegInf NegInf = False"
| "flt NegInf y = True"


text \<open>The number of binary digits of a natural number, and with it \<open>\<lfloor>log\<^sub>2 x\<rfloor>\<close> of a
  positive rational.\<close>

fun bits :: "nat \<Rightarrow> nat" where
  "bits n = (if n = 0 then 0 else Suc (bits (n div 2)))"

declare bits.simps [simp del]

definition floor_log2 :: "rat \<Rightarrow> int" where
  "floor_log2 x = (if 1 \<le> x then int (bits (nat \<lfloor>x\<rfloor>)) - 1
                   else - int (bits (nat (\<lceil>1 / x\<rceil> - 1))))"

definition scale2 :: "rat \<Rightarrow> int \<Rightarrow> rat" where
  "scale2 q k = (if 0 \<le> k then q * 2 ^ nat k else q / 2 ^ nat (- k))"

definition round_half_even :: "rat \<Rightarrow> int" where
  "round_half_even m =
     (let f = \<lfloor>m\<rfloor>; r = m - of_int f
      in if r < 1 / 2 then f else if 1 / 2 < r then f + 1 else if even f then f else f + 1)"

text \<open>The binary64 value nearest to a rational, ties to the even significand: 53 bits of
  significand at the exponent of the number, which is at least \<open>-1022\<close> (below it the
  values are subnormal), and an infinity from \<open>2\<^sup>1\<^sup>0\<^sup>2\<^sup>4\<close> on.\<close>

definition b64 :: "rat \<Rightarrow> pyfloat" where
  "b64 x =
     (if x = 0 then Finite 0
      else (let e = max (- 1022) (floor_log2 \<bar>x\<bar>);
                y = scale2 (of_int (round_half_even (scale2 \<bar>x\<bar> (52 - e)))) (e - 52)
            in if 2 ^ 1024 \<le> y then (if x < 0 then NegInf else PosInf)
               else Finite (if x < 0 then - y else y)))"

fun fadd :: "pyfloat \<Rightarrow> pyfloat \<Rightarrow> pyfloat" where
  "fadd NaN y = NaN"
| "fadd x NaN = NaN"
| "fadd (Finite p) (Finite q) = b64 (p + q)"
| "fadd (Finite p) y = y"
| "fadd x (Finite q) = x"
| "fadd PosInf PosInf = PosInf"
| "fadd NegInf NegInf = NegInf"
| "fadd PosInf NegInf = NaN"
| "fadd NegInf PosInf = NaN"

text \<open>The exponent of a decimal literal, after its \<open>e\<close>.\<close>

definition parse_exponent :: "string \<Rightarrow> int option" where
  "parse_exponent s =
     (let neg = fst (split_sign s); ds = snd (split_sign s)
      in if ds \<noteq> [] \<and> list_all is_digit ds
         then Some (if neg then - int (digits_to_nat ds) else int (digits_to_nat ds))
         else None)"

definition scale10 :: "rat \<Rightarrow> int \<Rightarrow> rat" where
  "scale10 q e = (if 0 \<le> e then q * 10 ^ nat e else q / 10 ^ nat (- e))"

text \<open>An unsigned decimal literal that is the whole string: digits with an optional
  point, at least one digit, and an optional exponent.\<close>

definition parse_decimal :: "string \<Rightarrow> rat option" where
  "parse_decimal s =
     (let ip = takeWhile is_digit s;
          r1 = dropWhile is_digit s;
          has_point = (case r1 of [] \<Rightarrow> False | c # _ \<Rightarrow> c = CHR ''.'');
          fp = (if has_point then takeWhile is_digit (tl r1) else []);
          r2 = (if has_point then dropWhile is_digit (tl r1) else r1);
          mant = of_nat (digits_to_nat (ip @ fp)) / 10 ^ length fp
      in if ip = [] \<and> fp = [] then None
         else (case r2 of
                 [] \<Rightarrow> Some mant
               | c # cs \<Rightarrow>
                   if c = CHR ''e'' \<or> c = CHR ''E''
                   then map_option (scale10 mant) (parse_exponent cs)
                   else None))"

text \<open>\<^verbatim>\<open>float(s)\<close>; \<open>None\<close> is its \<open>ValueError\<close>.\<close>

definition py_float :: "string \<Rightarrow> pyfloat option" where
  "py_float s =
     (let t = strip s;
          neg = fst (split_sign (drop_underscores t));
          body = snd (split_sign (drop_underscores t))
      in if \<not> underscores_ok None t then None
         else if lower body = ''inf'' \<or> lower body = ''infinity''
         then Some (if neg then NegInf else PosInf)
         else if lower body = ''nan'' then Some NaN
         else map_option (\<lambda>q. b64 (if neg then - q else q)) (parse_decimal body))"

subsection \<open>Parsing a command's arguments\<close>

text \<open>The dataclass \<open>Parsed\<close>.\<close>

datatype parsed = Parsed (p_amount: "pyfloat option") (p_note: string)

definition parse_amount_and_note :: "string list \<Rightarrow> parsed" where
  "parse_amount_and_note args =
     (case args of
        [] \<Rightarrow> Parsed None []
      | raw # rest \<Rightarrow>
          (case py_float (replace_comma raw) of
             Some amt \<Rightarrow> Parsed (Some amt) (strip (join_sp rest))
           | None \<Rightarrow> Parsed None (strip (join_sp args))))"

subsection \<open>Time\<close>

text \<open>An aware \<open>datetime\<close> in UTC. Every datetime of the bot is one: \<open>datetime.now(UTC)\<close>
  or a value built with \<open>tzinfo=UTC\<close>.\<close>

record datetime =
  dt_year :: nat
  dt_month :: nat
  dt_day :: nat
  dt_hour :: nat
  dt_minute :: nat
  dt_second :: nat
  dt_microsecond :: nat

text \<open>The decimal digits of a number, and zero padding on the left to a width.\<close>

fun dec :: "nat \<Rightarrow> string" where
  "dec n = (if n < 10 then [digit_char n] else dec (n div 10) @ [digit_char (n mod 10)])"

declare dec.simps [simp del]

definition zfill :: "nat \<Rightarrow> string \<Rightarrow> string" where
  "zfill w s = replicate (w - length s) (CHR ''0'') @ s"

text \<open>\<^verbatim>\<open>f"{n:04d}"\<close> and \<^verbatim>\<open>f"{n:02d}"\<close>: the sign counts in the width.\<close>

definition format_0d :: "nat \<Rightarrow> int \<Rightarrow> string" where
  "format_0d w n = (if n < 0 then ''-'' @ zfill (w - 1) (dec (nat (- n))) else zfill w (dec (nat n)))"

text \<open>\<open>d.isoformat()\<close> with \<open>+00:00\<close> replaced by \<open>Z\<close>: the fraction is printed only
  when the microseconds are not zero.\<close>

definition iso_utc :: "datetime \<Rightarrow> string" where
  "iso_utc d =
     zfill 4 (dec (dt_year d)) @ ''-'' @ zfill 2 (dec (dt_month d)) @ ''-'' @ zfill 2 (dec (dt_day d))
     @ ''T'' @ zfill 2 (dec (dt_hour d)) @ '':'' @ zfill 2 (dec (dt_minute d)) @ '':''
     @ zfill 2 (dec (dt_second d))
     @ (if dt_microsecond d = 0 then [] else ''.'' @ zfill 6 (dec (dt_microsecond d)))
     @ ''Z''"

text \<open>\<^verbatim>\<open>d.strftime("%Y-%m")\<close>, for a year of four digits.\<close>

definition strftime_ym :: "datetime \<Rightarrow> string" where
  "strftime_ym d = zfill 4 (dec (dt_year d)) @ ''-'' @ zfill 2 (dec (dt_month d))"

definition is_leap :: "nat \<Rightarrow> bool" where
  "is_leap y = (y mod 4 = 0 \<and> (y mod 400 = 0 \<or> y mod 100 \<noteq> 0))"

definition days_in_month :: "nat \<Rightarrow> nat \<Rightarrow> nat" where
  "days_in_month y m =
     (if m = 2 then (if is_leap y then 29 else 28)
      else if m = 4 \<or> m = 6 \<or> m = 9 \<or> m = 11 then 30 else 31)"

text \<open>\<^verbatim>\<open>datetime(year, month, day, tzinfo=UTC)\<close>: a \<open>ValueError\<close> outside the years 1 to 9999
  and the days of the month.\<close>

definition mk_datetime :: "int \<Rightarrow> int \<Rightarrow> int \<Rightarrow> py_error + datetime" where
  "mk_datetime y m d =
     (if 1 \<le> y \<and> y \<le> 9999 \<and> 1 \<le> m \<and> m \<le> 12 \<and> 1 \<le> d \<and> d \<le> int (days_in_month (nat y) (nat m))
      then Inr \<lparr>dt_year = nat y, dt_month = nat m, dt_day = nat d, dt_hour = 0, dt_minute = 0,
                dt_second = 0, dt_microsecond = 0\<rparr>
      else Inl ValueError)"

text \<open>\<^verbatim>\<open>d.replace(hour=0, minute=0, second=0, microsecond=0)\<close>\<close>

definition midnight :: "datetime \<Rightarrow> datetime" where
  "midnight d = d\<lparr>dt_hour := 0, dt_minute := 0, dt_second := 0, dt_microsecond := 0\<rparr>"

text \<open>\<^verbatim>\<open>d.replace(day=1, hour=0, minute=0, second=0, microsecond=0)\<close>\<close>

definition month_start :: "datetime \<Rightarrow> datetime" where
  "month_start d = (midnight d)\<lparr>dt_day := 1\<rparr>"

text \<open>\<^verbatim>\<open>d - dt.timedelta(days=1)\<close>\<close>

definition minus_one_day :: "datetime \<Rightarrow> py_error + datetime" where
  "minus_one_day d =
     (if 1 < dt_day d then Inr (d\<lparr>dt_day := dt_day d - 1\<rparr>)
      else if 1 < dt_month d
      then Inr (d\<lparr>dt_month := dt_month d - 1, dt_day := days_in_month (dt_year d) (dt_month d - 1)\<rparr>)
      else if 1 < dt_year d
      then Inr (d\<lparr>dt_year := dt_year d - 1, dt_month := 12, dt_day := 31\<rparr>)
      else Inl OverflowError)"

subsection \<open>Period helpers\<close>

definition month_bounds_utc :: "int \<Rightarrow> int \<Rightarrow> py_error + (string \<times> string)" where
  "month_bounds_utc year month =
     (case mk_datetime year month 1 of
        Inl e \<Rightarrow> Inl e
      | Inr start \<Rightarrow>
          (case mk_datetime (year + (if month = 12 then 1 else 0))
                            (if month = 12 then 1 else month + 1) 1 of
             Inl e \<Rightarrow> Inl e
           | Inr stop \<Rightarrow> Inr (iso_utc start, iso_utc stop)))"

text \<open>The expression \<^verbatim>\<open>month_bounds_utc(int(period[:4]), int(period[5:7]))\<close>, which
  \<open>spent_in_period\<close>, \<open>cmd_budget_view\<close>, \<open>cmd_list\<close> and \<open>cmd_export\<close> each evaluate.\<close>

definition period_bounds :: "string \<Rightarrow> py_error + (string \<times> string)" where
  "period_bounds period =
     (case py_int (take 4 period) of
        Inl e \<Rightarrow> Inl e
      | Inr y \<Rightarrow>
          (case py_int (take 2 (drop 5 period)) of
             Inl e \<Rightarrow> Inl e
           | Inr m \<Rightarrow> month_bounds_utc y m))"

text \<open>The period of \<open>cmd_list\<close> and \<open>cmd_export\<close> (the same lines in both): the argument
  when it reads as a year, a hyphen and a month from 1 to 12, else the current month.\<close>

definition period_arg :: "datetime \<Rightarrow> string list \<Rightarrow> string" where
  "period_arg now args =
     (case args of
        [] \<Rightarrow> strftime_ym now
      | a # _ \<Rightarrow>
          (let raw = strip a in
           case py_int (take 4 raw) of
             Inl e \<Rightarrow> strftime_ym now
           | Inr y \<Rightarrow>
               (case py_int (take 2 (drop 5 raw)) of
                  Inl e \<Rightarrow> strftime_ym now
                | Inr m \<Rightarrow>
                    if length raw = 7 \<and> raw ! 4 = CHR ''-'' \<and> 1 \<le> m \<and> m \<le> 12
                    then format_0d 4 y @ ''-'' @ format_0d 2 m
                    else strftime_ym now)))"

section \<open>The store\<close>

text \<open>
  The four tables of \<open>CREATE_SQL\<close>, each a list of rows in insertion order. The column
  \<open>type\<close> holds \<open>'expense'\<close> or \<open>'income'\<close> (its \<open>CHECK\<close> constraint, and the only two
  values a caller passes). A \<open>REAL\<close> column holds a float or \<open>NULL\<close> (\<open>None\<close>); SQLite
  stores a NaN it is given as \<open>NULL\<close>. The columns \<open>currency\<close> and \<open>created_at\<close> of
  \<open>users\<close> are left out: no statement reads them. Each \<open>seq_\<close> field is the table's
  entry of \<open>sqlite_sequence\<close>, which \<open>AUTOINCREMENT\<close> keeps. Failures of the storage
  itself (I/O, locking) are not modelled.
\<close>

datatype ttype = Expense | Income

record user_row =
  u_id :: int
  u_digest_hour_utc :: "int option"

record category_row =
  c_id :: int
  c_user_id :: int
  c_name :: string
  c_type :: ttype

record txn_row =
  t_id :: int
  t_user_id :: int
  t_amount :: "pyfloat option"
  t_category_id :: int
  t_ts :: string
  t_note :: string
  t_type :: ttype

record budget_row =
  b_id :: int
  b_user_id :: int
  b_category_id :: int
  b_period :: string
  b_amount :: "pyfloat option"

record db =
  users :: "user_row list"
  categories :: "category_row list"
  transactions :: "txn_row list"
  budgets :: "budget_row list"
  seq_categories :: int
  seq_transactions :: int
  seq_budgets :: int

definition empty_db :: db where
  "empty_db = \<lparr>users = [], categories = [], transactions = [], budgets = [],
               seq_categories = 0, seq_transactions = 0, seq_budgets = 0\<rparr>"

definition DAILY_DIGEST_HOUR_UTC :: int where
  "DAILY_DIGEST_HOUR_UTC = 18"

text \<open>A float bound to a statement's parameter, as SQLite stores it.\<close>

fun sql_real :: "pyfloat \<Rightarrow> pyfloat option" where
  "sql_real NaN = None"
| "sql_real x = Some x"

text \<open>The id \<open>AUTOINCREMENT\<close> gives a new row: one more than the largest id the table
  has ever held.\<close>

definition next_id :: "int \<Rightarrow> int list \<Rightarrow> int" where
  "next_id s ids = foldl max s ids + 1"

definition ensure_user :: "db \<Rightarrow> int \<Rightarrow> db" where
  "ensure_user d uid =
     (if list_ex (\<lambda>u. u_id u = uid) (users d) then d
      else d\<lparr>users := users d @ [\<lparr>u_id = uid, u_digest_hour_utc = Some DAILY_DIGEST_HOUR_UTC\<rparr>]\<rparr>)"

subsection \<open>Catalog / write\<close>

definition same_category :: "int \<Rightarrow> string \<Rightarrow> ttype \<Rightarrow> category_row \<Rightarrow> bool" where
  "same_category uid name k c = (c_user_id c = uid \<and> c_name c = name \<and> c_type c = k)"

text \<open>The conditional \<open>INSERT\<close>, then the \<open>SELECT\<close>; \<open>row[0]\<close> of no row is a
  \<open>TypeError\<close>.\<close>

definition upsert_category :: "db \<Rightarrow> int \<Rightarrow> string \<Rightarrow> ttype \<Rightarrow> (py_error + int) \<times> db" where
  "upsert_category d uid name k =
     (let name' = lower name;
          nid = next_id (seq_categories d) (map c_id (categories d));
          d1 = (if list_ex (same_category uid name' k) (categories d) then d
                else d\<lparr>categories := categories d @
                         [\<lparr>c_id = nid, c_user_id = uid, c_name = name', c_type = k\<rparr>],
                       seq_categories := nid\<rparr>)
      in case find (same_category uid name' k) (categories d1) of
           None \<Rightarrow> (Inl TypeError, d1)
         | Some c \<Rightarrow> (Inr (c_id c), d1))"

text \<open>The label of a transaction without a note, the Russian word for "miscellaneous"
  in UTF-8.\<close>

definition misc_label :: string where
  "misc_label = [CHR 0xD0, CHR 0xBF, CHR 0xD1, CHR 0x80, CHR 0xD0, CHR 0xBE,
                 CHR 0xD1, CHR 0x87, CHR 0xD0, CHR 0xB5, CHR 0xD0, CHR 0xB5]"

text \<open>The category name of \<open>add_txn_core\<close>: the first word of a note that is not the
  empty string, lowercased; \<open>[0]\<close> of an empty list is an \<open>IndexError\<close>.\<close>

definition cat_name_of :: "string \<Rightarrow> py_error + string" where
  "cat_name_of nt =
     (if nt \<noteq> []
      then (case split_ws nt of [] \<Rightarrow> Inl IndexError | w # _ \<Rightarrow> Inr (lower w))
      else Inr (lower misc_label))"

text \<open>The amount \<open>add_txn_core\<close> binds to the \<open>INSERT\<close>.\<close>

definition amount_val :: "ttype \<Rightarrow> pyfloat \<Rightarrow> pyfloat" where
  "amount_val k amount = (if k = Income then amount else fneg (fabs amount))"

definition add_txn_core ::
  "db \<Rightarrow> datetime \<Rightarrow> int \<Rightarrow> pyfloat \<Rightarrow> string \<Rightarrow> ttype \<Rightarrow> (py_error + string) \<times> db" where
  "add_txn_core d now uid amount nt k =
     (let d1 = ensure_user d uid in
      case cat_name_of nt of
        Inl e \<Rightarrow> (Inl e, d1)
      | Inr cat_name \<Rightarrow>
          (case upsert_category d1 uid cat_name k of
             (Inl e, d2) \<Rightarrow> (Inl e, d2)
           | (Inr cat_id, d2) \<Rightarrow>
               (let tid = next_id (seq_transactions d2) (map t_id (transactions d2))
                in (Inr cat_name,
                    d2\<lparr>transactions := transactions d2 @
                         [\<lparr>t_id = tid, t_user_id = uid, t_amount = sql_real (amount_val k amount),
                           t_category_id = cat_id, t_ts = iso_utc now, t_note = nt, t_type = k\<rparr>],
                       seq_transactions := tid\<rparr>))))"

text \<open>The handler of \<open>/add\<close> and \<open>/inc\<close>. A reply is the data its text is printed
  from.\<close>

datatype add_reply = NeedAmount | Recorded ttype pyfloat string

definition add_txn :: "db \<Rightarrow> datetime \<Rightarrow> int \<Rightarrow> string list \<Rightarrow> ttype \<Rightarrow> (py_error + add_reply) \<times> db" where
  "add_txn d now uid args k =
     (let parsed = parse_amount_and_note args in
      case p_amount parsed of
        None \<Rightarrow> (Inr NeedAmount, d)
      | Some amount \<Rightarrow>
          (case add_txn_core d now uid amount (p_note parsed) k of
             (Inl e, d') \<Rightarrow> (Inl e, d')
           | (Inr cat, d') \<Rightarrow>
               (Inr (Recorded k (fabs amount) (if p_note parsed \<noteq> [] then p_note parsed else cat)),
                d')))"

definition cmd_add :: "db \<Rightarrow> datetime \<Rightarrow> int \<Rightarrow> string list \<Rightarrow> (py_error + add_reply) \<times> db" where
  "cmd_add d now uid args = add_txn d now uid args Expense"

definition cmd_inc :: "db \<Rightarrow> datetime \<Rightarrow> int \<Rightarrow> string list \<Rightarrow> (py_error + add_reply) \<times> db" where
  "cmd_inc d now uid args = add_txn d now uid args Income"

subsection \<open>Totals\<close>

text \<open>SQL's \<open>SUM\<close> skips \<open>NULL\<close> and is \<open>NULL\<close> over no value; \<open>ABS\<close> and \<open>ROUND\<close> of
  \<open>NULL\<close> are \<open>NULL\<close>. \<open>SUM\<close> adds the values in the order of the rows, every addition
  rounded to binary64. \<open>ROUND(x, 2)\<close> is the binary64 value nearest to \<open>x\<close> rounded to
  hundredths, a half away from zero.\<close>

definition fsum :: "pyfloat list \<Rightarrow> pyfloat" where
  "fsum vs = foldl fadd (Finite 0) vs"

definition sql_sum :: "pyfloat option list \<Rightarrow> pyfloat option" where
  "sql_sum xs =
     (case List.map_filter (\<lambda>x. x) xs of
        [] \<Rightarrow> None
      | v # vs \<Rightarrow> sql_real (fsum (v # vs)))"

definition sql_abs :: "pyfloat option \<Rightarrow> pyfloat option" where
  "sql_abs x = map_option fabs x"

definition round2 :: "rat \<Rightarrow> rat" where
  "round2 q = (if 0 \<le> q then of_int \<lfloor>q * 100 + 1 / 2\<rfloor> / 100
               else - (of_int \<lfloor>- q * 100 + 1 / 2\<rfloor> / 100))"

fun fround2 :: "pyfloat \<Rightarrow> pyfloat" where
  "fround2 (Finite q) = b64 (round2 q)"
| "fround2 x = x"

definition sql_round2 :: "pyfloat option \<Rightarrow> pyfloat option" where
  "sql_round2 x = map_option fround2 x"

type_synonym totals_row = "pyfloat option \<times> pyfloat option \<times> pyfloat option"

text \<open>The rows of \<open>WHERE user_id=? AND ts >= ?\<close>.\<close>

definition rows_since :: "db \<Rightarrow> int \<Rightarrow> string \<Rightarrow> txn_row list" where
  "rows_since d uid start_iso =
     filter (\<lambda>t. t_user_id t = uid \<and> start_iso \<le> t_ts t) (transactions d)"

text \<open>An aggregate query without \<open>GROUP BY\<close> has exactly one row, so \<open>fetchone()\<close> is
  never \<open>None\<close> here.\<close>

definition get_totals :: "db \<Rightarrow> int \<Rightarrow> string \<Rightarrow> totals_row option" where
  "get_totals d uid start_iso =
     (let rows = rows_since d uid start_iso in
      Some (sql_round2 (sql_sum (map (\<lambda>t. if t_type t = Income then t_amount t
                                           else Some (Finite 0)) rows)),
            sql_round2 (sql_abs (sql_sum (map (\<lambda>t. if t_type t = Expense then t_amount t
                                                    else Some (Finite 0)) rows))),
            sql_round2 (sql_sum (map t_amount rows))))"

text \<open>\<^verbatim>\<open>row or (0, 0, 0)\<close>: a tuple of three is true, whatever it holds.\<close>

definition row_or_zeros :: "totals_row option \<Rightarrow> totals_row" where
  "row_or_zeros row =
     (case row of
        None \<Rightarrow> (Some (Finite 0), Some (Finite 0), Some (Finite 0))
      | Some r \<Rightarrow> r)"

text \<open>\<^verbatim>\<open>f"{x:.2f}"\<close>: the number that is printed; \<open>None\<close> has no such format.\<close>

definition format_2f :: "pyfloat option \<Rightarrow> py_error + pyfloat" where
  "format_2f x = (case x of None \<Rightarrow> Inl TypeError | Some v \<Rightarrow> Inr v)"

text \<open>The three numbers of a summary line, formatted left to right.\<close>

definition format_totals :: "totals_row \<Rightarrow> py_error + (pyfloat \<times> pyfloat \<times> pyfloat)" where
  "format_totals r =
     (case r of (inc, expn, net) \<Rightarrow>
        (case format_2f inc of
           Inl e \<Rightarrow> Inl e
         | Inr i \<Rightarrow>
             (case format_2f expn of
                Inl e \<Rightarrow> Inl e
              | Inr x \<Rightarrow>
                  (case format_2f net of
                     Inl e \<Rightarrow> Inl e
                   | Inr n \<Rightarrow> Inr (i, x, n)))))"

definition cmd_sum :: "db \<Rightarrow> datetime \<Rightarrow> int \<Rightarrow> py_error + (pyfloat \<times> pyfloat \<times> pyfloat)" where
  "cmd_sum d now uid =
     (let first = iso_utc (month_start now);
          row = get_totals d uid first
      in format_totals (row_or_zeros row))"

subsection \<open>Budgets\<close>

definition resolve_category :: "db \<Rightarrow> int \<Rightarrow> string \<Rightarrow> int option" where
  "resolve_category d uid name =
     map_option c_id (find (same_category uid (lower name) Expense) (categories d))"

definition same_budget :: "int \<Rightarrow> int \<Rightarrow> string \<Rightarrow> budget_row \<Rightarrow> bool" where
  "same_budget uid cat_id period b =
     (b_user_id b = uid \<and> b_category_id b = cat_id \<and> b_period b = period)"

text \<open>\<^verbatim>\<open>INSERT ... ON CONFLICT(user_id, category_id, period) DO UPDATE SET
  amount=excluded.amount\<close>. The insert draws an id from the sequence of \<open>AUTOINCREMENT\<close>
  before the conflict is found, so the sequence moves on in both branches.\<close>

definition upsert_budget :: "db \<Rightarrow> int \<Rightarrow> int \<Rightarrow> string \<Rightarrow> pyfloat \<Rightarrow> db" where
  "upsert_budget d uid cat_id period amount =
     (if list_ex (same_budget uid cat_id period) (budgets d)
      then d\<lparr>budgets := map (\<lambda>b. if same_budget uid cat_id period b
                                   then b\<lparr>b_amount := sql_real amount\<rparr> else b) (budgets d),
             seq_budgets := next_id (seq_budgets d) (map b_id (budgets d))\<rparr>
      else (let bid = next_id (seq_budgets d) (map b_id (budgets d))
            in d\<lparr>budgets := budgets d @
                    [\<lparr>b_id = bid, b_user_id = uid, b_category_id = cat_id, b_period = period,
                      b_amount = sql_real amount\<rparr>],
                  seq_budgets := bid\<rparr>))"

datatype budget_reply = BudgetUsage | BadAmount | BudgetSet string string pyfloat

text \<open>\<^verbatim>\<open>if not cat_id\<close> is true of \<open>None\<close> and of the id 0.\<close>

definition cmd_budget_set ::
  "db \<Rightarrow> datetime \<Rightarrow> int \<Rightarrow> string list \<Rightarrow> (py_error + budget_reply) \<times> db" where
  "cmd_budget_set d now uid args =
     (if length args < 2 then (Inr BudgetUsage, d)
      else
        (let cat_name = lower (args ! 0) in
         case py_float (replace_comma (args ! 1)) of
           None \<Rightarrow> (Inr BadAmount, d)
         | Some amount \<Rightarrow>
             (let period = (if 3 \<le> length args then args ! 2 else strftime_ym now);
                  d1 = ensure_user d uid;
                  res = (case resolve_category d1 uid cat_name of
                           None \<Rightarrow> upsert_category d1 uid cat_name Expense
                         | Some i \<Rightarrow> if i = 0 then upsert_category d1 uid cat_name Expense
                                     else (Inr i, d1))
              in case res of
                   (Inl e, d2) \<Rightarrow> (Inl e, d2)
                 | (Inr cat_id, d2) \<Rightarrow>
                     (Inr (BudgetSet cat_name period amount),
                      upsert_budget d2 uid cat_id period amount))))"

text \<open>\<^verbatim>\<open>ABS(COALESCE(SUM(amount),0))\<close> over the expense rows of a user and a category
  with \<open>ts >= start AND ts < end\<close>.\<close>

definition spent_between :: "db \<Rightarrow> int \<Rightarrow> int \<Rightarrow> string \<Rightarrow> string \<Rightarrow> pyfloat option" where
  "spent_between d uid cat_id start_iso end_iso =
     sql_abs
       (case sql_sum (map t_amount
               (filter (\<lambda>t. t_user_id t = uid \<and> t_category_id t = cat_id \<and> t_type t = Expense \<and>
                             start_iso \<le> t_ts t \<and> t_ts t < end_iso) (transactions d))) of
          None \<Rightarrow> Some (Finite 0)
        | Some v \<Rightarrow> Some v)"

text \<open>The rows of \<open>/budget_view\<close>: name, limit and spent, by name. The period is the
  argument as it was typed. The lines printed from the rows are not modelled, except
  that \<^verbatim>\<open>float(limit)\<close> of a \<open>NULL\<close> limit is a \<open>TypeError\<close>.\<close>

definition cmd_budget_view ::
  "db \<Rightarrow> datetime \<Rightarrow> int \<Rightarrow> string list \<Rightarrow>
     (py_error + (string \<times> pyfloat option \<times> pyfloat option) list) \<times> db" where
  "cmd_budget_view d now uid args =
     (let period = (case args of [] \<Rightarrow> strftime_ym now | a # _ \<Rightarrow> a);
          d1 = ensure_user d uid
      in case period_bounds period of
           Inl e \<Rightarrow> (Inl e, d1)
         | Inr (start_iso, end_iso) \<Rightarrow>
             (let rows = sort_key fst
                     (concat (map (\<lambda>b. map (\<lambda>c. (c_name c, b_amount b,
                                                    spent_between d1 (b_user_id b) (b_category_id b)
                                                      start_iso end_iso))
                                             (filter (\<lambda>c. c_id c = b_category_id b) (categories d1)))
                                  (filter (\<lambda>b. b_user_id b = uid \<and> b_period b = period)
                                          (budgets d1))))
              in (if list_ex (\<lambda>r. fst (snd r) = None) rows then Inl TypeError else Inr rows, d1)))"

subsection \<open>List and export\<close>

text \<open>The rows of \<open>transactions t JOIN categories c ON c.id = t.category_id\<close> with
  \<open>t.user_id = ? AND t.ts >= ? AND t.ts < ?\<close>, by \<open>ts\<close> ascending.\<close>

definition month_rows :: "db \<Rightarrow> int \<Rightarrow> string \<Rightarrow> string \<Rightarrow> (txn_row \<times> category_row) list" where
  "month_rows d uid start_iso end_iso =
     sort_key (\<lambda>r. t_ts (fst r))
       (concat (map (\<lambda>t. map (\<lambda>c. (t, c)) (filter (\<lambda>c. c_id c = t_category_id t) (categories d)))
                    (filter (\<lambda>t. t_user_id t = uid \<and> start_iso \<le> t_ts t \<and> t_ts t < end_iso)
                            (transactions d))))"

record list_row =
  l_ts :: string
  l_amount :: "pyfloat option"
  l_category :: string
  l_note :: string
  l_type :: ttype

text \<open>\<open>/list\<close>: the period and the twenty newest rows of its month. The bounds are
  computed before the database is opened. The lines printed from the rows are not
  modelled, except that \<^verbatim>\<open>abs(amt)\<close> of a \<open>NULL\<close> amount is a \<open>TypeError\<close>.\<close>

definition list_row_of :: "txn_row \<times> category_row \<Rightarrow> list_row" where
  "list_row_of r =
     \<lparr>l_ts = t_ts (fst r), l_amount = t_amount (fst r), l_category = c_name (snd r),
      l_note = t_note (fst r), l_type = t_type (fst r)\<rparr>"

definition cmd_list ::
  "db \<Rightarrow> datetime \<Rightarrow> int \<Rightarrow> string list \<Rightarrow> (py_error + string \<times> list_row list) \<times> db" where
  "cmd_list d now uid args =
     (let period = period_arg now args in
      case period_bounds period of
        Inl e \<Rightarrow> (Inl e, d)
      | Inr (start_iso, end_iso) \<Rightarrow>
          (let d1 = ensure_user d uid;
               rows = take 20 (rev (map list_row_of (month_rows d1 uid start_iso end_iso)))
           in (if list_ex (\<lambda>r. l_amount r = None) rows then Inl TypeError
               else Inr (period, rows),
               d1)))"

record export_row =
  e_ts :: string
  e_type :: ttype
  e_amount :: "pyfloat option"
  e_category :: string
  e_note :: string

text \<open>A row of the CSV file: the amount is \<open>ABS(t.amount)\<close>.\<close>

definition export_row_of :: "txn_row \<times> category_row \<Rightarrow> export_row" where
  "export_row_of r =
     \<lparr>e_ts = t_ts (fst r), e_type = t_type (fst r), e_amount = sql_abs (t_amount (fst r)),
      e_category = c_name (snd r), e_note = t_note (fst r)\<rparr>"

text \<open>\<open>/export\<close>: the period and the rows of the CSV file.\<close>

definition cmd_export ::
  "db \<Rightarrow> datetime \<Rightarrow> int \<Rightarrow> string list \<Rightarrow> (py_error + string \<times> export_row list) \<times> db" where
  "cmd_export d now uid args =
     (let period = period_arg now args in
      case period_bounds period of
        Inl e \<Rightarrow> (Inl e, d)
      | Inr (start_iso, end_iso) \<Rightarrow>
          (let d1 = ensure_user d uid in
           (Inr (period,
                 map export_row_of (month_rows d1 uid start_iso end_iso)),
            d1)))"

subsection \<open>Daily digest\<close>

text \<open>The body of the loop over the users for one of them: the "today" line is printed
  from \<open>d\<close>, the totals since \<open>y0\<close>, and the "month" line from \<open>m\<close>. The source formats
  the day's numbers first.\<close>

definition digest_text ::
  "db \<Rightarrow> datetime \<Rightarrow> int \<Rightarrow>
     py_error + ((pyfloat \<times> pyfloat \<times> pyfloat) \<times> (pyfloat \<times> pyfloat \<times> pyfloat))" where
  "digest_text base now uid =
     (let first_month = iso_utc (month_start now) in
      case minus_one_day now of
        Inl e \<Rightarrow> Inl e
      | Inr yesterday \<Rightarrow>
          (let y0 = iso_utc (midnight yesterday);
               y1 = iso_utc (midnight now);
               m = get_totals base uid first_month;
               d = get_totals base uid y0
           in case format_totals (row_or_zeros d) of
                Inl e \<Rightarrow> Inl e
              | Inr day \<Rightarrow>
                  (case format_totals (row_or_zeros m) of
                     Inl e \<Rightarrow> Inl e
                   | Inr mon \<Rightarrow> Inr (day, mon))))"

text \<open>One pass of \<open>send_daily_digest\<close> at the time \<open>now\<close> it wakes up at: the messages, in
  the order of the users, which \<open>SELECT id, digest_hour_utc FROM users\<close> reads by id. An
  exception leaves the loop, since only the sending is guarded. The sleeping between two
  passes is not modelled.\<close>

fun digest_users ::
  "db \<Rightarrow> datetime \<Rightarrow> user_row list \<Rightarrow>
     py_error + (int \<times> (pyfloat \<times> pyfloat \<times> pyfloat) \<times> (pyfloat \<times> pyfloat \<times> pyfloat)) list" where
  "digest_users base now [] = Inr []"
| "digest_users base now (u # us) =
     (let hour = (case u_digest_hour_utc u of None \<Rightarrow> DAILY_DIGEST_HOUR_UTC | Some h \<Rightarrow> h) in
      if int (dt_hour now) = hour
      then (case digest_text base now (u_id u) of
              Inl e \<Rightarrow> Inl e
            | Inr msg \<Rightarrow>
                (case digest_users base now us of
                   Inl e \<Rightarrow> Inl e
                 | Inr ms \<Rightarrow> Inr ((u_id u, msg) # ms)))
      else digest_users base now us)"

definition send_daily_digest ::
  "db \<Rightarrow> datetime \<Rightarrow>
     py_error + (int \<times> (pyfloat \<times> pyfloat \<times> pyfloat) \<times> (pyfloat \<times> pyfloat \<times> pyfloat)) list" where
  "send_daily_digest base now =
     (if dt_minute now \<noteq> 0 then Inr []
      else digest_users base now (sort_key u_id (users base)))"

section \<open>Constraints of the schema and the sums of an export\<close>

text \<open>\<open>UNIQUE(user_id, category_id, period)\<close> of \<open>budgets\<close>.\<close>

definition budget_key :: "budget_row \<Rightarrow> int \<times> int \<times> string" where
  "budget_key b = (b_user_id b, b_category_id b, b_period b)"

definition budgets_unique :: "db \<Rightarrow> bool" where
  "budgets_unique d = distinct (map budget_key (budgets d))"

text \<open>\<open>id INTEGER PRIMARY KEY\<close> of \<open>categories\<close>, and every transaction's category is a
  row of it, as \<open>add_txn_core\<close> leaves them.\<close>

definition categories_ok :: "db \<Rightarrow> bool" where
  "categories_ok d =
     (distinct (map c_id (categories d)) \<and>
      list_all (\<lambda>t. t_category_id t \<in> set (map c_id (categories d))) (transactions d))"

text \<open>A stored amount that is finite and has the sign of its kind.\<close>

definition signed_ok :: "txn_row \<Rightarrow> bool" where
  "signed_ok t =
     (case t_amount t of
        Some (Finite q) \<Rightarrow> (if t_type t = Income then 0 \<le> q else q \<le> 0)
      | _ \<Rightarrow> False)"

definition ledger_signed :: "db \<Rightarrow> int \<Rightarrow> bool" where
  "ledger_signed d uid = list_all signed_ok (filter (\<lambda>t. t_user_id t = uid) (transactions d))"

text \<open>No transaction of the user at or after a bound.\<close>

definition none_since :: "db \<Rightarrow> int \<Rightarrow> string \<Rightarrow> bool" where
  "none_since d uid end_iso =
     list_all (\<lambda>t. t_ts t < end_iso) (filter (\<lambda>t. t_user_id t = uid) (transactions d))"

text \<open>Summing an export again: the amount of a row, the amount with its sign restored
  from the kind, and the three sums.\<close>

definition finite_value :: "pyfloat option \<Rightarrow> rat" where
  "finite_value x = (case x of Some (Finite q) \<Rightarrow> q | _ \<Rightarrow> 0)"

text \<open>Amounts that binary64 adds without rounding: every stored amount of the user is a
  whole number, and their absolute values add up to less than \<open>2\<^sup>5\<^sup>3\<close>. Every sum of some
  of them, in any order and with any compensation, is then a whole number below
  \<open>2\<^sup>5\<^sup>3\<close>, which binary64 represents, and so is its rounding to hundredths.\<close>

definition whole_amount :: "txn_row \<Rightarrow> bool" where
  "whole_amount t = (finite_value (t_amount t) = of_int \<lfloor>finite_value (t_amount t)\<rfloor>)"

definition ledger_whole :: "db \<Rightarrow> int \<Rightarrow> bool" where
  "ledger_whole d uid =
     (let rows = filter (\<lambda>t. t_user_id t = uid) (transactions d)
      in list_all whole_amount rows \<and> (\<Sum>t\<leftarrow>rows. \<bar>finite_value (t_amount t)\<bar>) < 2 ^ 53)"

definition export_value :: "export_row \<Rightarrow> rat" where
  "export_value r = finite_value (e_amount r)"

definition signed_value :: "export_row \<Rightarrow> rat" where
  "signed_value r = (if e_type r = Income then export_value r else - export_value r)"

definition export_net :: "export_row list \<Rightarrow> rat" where
  "export_net rows = sum_list (map signed_value rows)"

definition export_income :: "export_row list \<Rightarrow> rat" where
  "export_income rows = sum_list (map export_value (filter (\<lambda>r. e_type r = Income) rows))"

definition export_expense :: "export_row list \<Rightarrow> rat" where
  "export_expense rows = sum_list (map export_value (filter (\<lambda>r. e_type r = Expense) rows))"

section \<open>Example states\<close>

text \<open>The instant \<open>datetime.now(UTC)\<close> returns, from its fields.\<close>

definition utc :: "nat \<Rightarrow> nat \<Rightarrow> nat \<Rightarrow> nat \<Rightarrow> nat \<Rightarrow> nat \<Rightarrow> nat \<Rightarrow> datetime" where
  "utc y m d hh mm ss us =
     \<lparr>dt_year = y, dt_month = m, dt_day = d, dt_hour = hh, dt_minute = mm, dt_second = ss,
      dt_microsecond = us\<rparr>"

text \<open>User 1 sends \<open>/add 100 food\<close> on 9 March 2024 at 10:00 and \<open>/add 50 food\<close> on
  10 March at 09:00.\<close>

definition db_two_days :: db where
  "db_two_days =
     snd (cmd_add (snd (cmd_add empty_db (utc 2024 3 9 10 0 0 0) 1 [''100'', ''food'']))
                  (utc 2024 3 10 9 0 0 0) 1 [''50'', ''food''])"

text \<open>User 1 sends \<open>/add 100 food\<close> on 15 January 2024 and \<open>/add 50 food\<close> on
  10 February.\<close>

definition db_two_months :: db where
  "db_two_months =
     snd (cmd_add (snd (cmd_add empty_db (utc 2024 1 15 10 0 0 0) 1 [''100'', ''food'']))
                  (utc 2024 2 10 10 0 0 0) 1 [''50'', ''food''])"

text \<open>User 1 sends \<open>/add 100 food\<close> half a second after midnight on 1 March 2024.\<close>

definition db_first_second :: db where
  "db_first_second = snd (cmd_add empty_db (utc 2024 3 1 0 0 0 500000) 1 [''100'', ''food''])"

text \<open>User 1 sends \<open>/add 30 food\<close> in the last second of February 2024 and
  \<open>/add 70 food\<close> at the first instant of March.\<close>

definition db_boundary :: db where
  "db_boundary =
     snd (cmd_add (snd (cmd_add empty_db (utc 2024 2 29 23 59 59 0) 1 [''30'', ''food'']))
                  (utc 2024 3 1 0 0 0 0) 1 [''70'', ''food''])"

text \<open>User 1 sends \<open>/inc 10000000000000000 pay\<close> and \<open>/inc 1 pay\<close> on 15 January 2024.\<close>

definition db_large_income :: db where
  "db_large_income =
     snd (cmd_inc (snd (cmd_inc empty_db (utc 2024 1 15 10 0 0 0) 1
                          [''10000000000000000'', ''pay'']))
                  (utc 2024 1 15 11 0 0 0) 1 [''1'', ''pay''])"

section \<open>Evaluation\<close>

lemmas text_defs =
  is_space_def is_digit_def digit_val_def digit_char_def digits_to_nat_def strip_def
  split_ws_def lower_char_def lower_def replace_comma_def drop_underscores_def split_sign_def
  py_int_def parse_exponent_def scale10_def parse_decimal_def py_float_def
  parse_amount_and_note_def

lemmas time_defs =
  dec.simps zfill_def format_0d_def iso_utc_def strftime_ym_def is_leap_def days_in_month_def
  mk_datetime_def midnight_def month_start_def minus_one_day_def month_bounds_utc_def
  period_bounds_def period_arg_def utc_def

lemmas store_defs =
  empty_db_def DAILY_DIGEST_HOUR_UTC_def next_id_def ensure_user_def same_category_def
  upsert_category_def misc_label_def cat_name_of_def amount_val_def add_txn_core_def
  add_txn_def cmd_add_def cmd_inc_def

lemmas query_defs =
  fsum_def sql_sum_def sql_abs_def round2_def sql_round2_def rows_since_def get_totals_def
  row_or_zeros_def format_2f_def format_totals_def cmd_sum_def resolve_category_def
  same_budget_def upsert_budget_def cmd_budget_set_def spent_between_def cmd_budget_view_def
  month_rows_def list_row_of_def export_row_of_def cmd_list_def cmd_export_def digest_text_def
  send_daily_digest_def
  List.map_filter_def

lemma floor_rat_numeral_div [simp]:
  "\<lfloor>(numeral a :: rat) / numeral b\<rfloor> = numeral a div numeral b"
  by (metis floor_divide_of_int_eq of_int_numeral)

lemma floor_rat_one_div [simp]: "\<lfloor>(1 :: rat) / numeral b\<rfloor> = 1 div numeral b"
  by (metis floor_divide_of_int_eq of_int_numeral of_int_1)

subsection \<open>Whole numbers below \<open>2\<^sup>5\<^sup>3\<close> are binary64 values\<close>

lemma bits_bound: "n < 2 ^ k \<Longrightarrow> bits n \<le> k"
proof (induction k arbitrary: n)
  case 0
  then show ?case by (simp add: bits.simps)
next
  case (Suc k)
  then have "n div 2 < 2 ^ k" by simp
  then have "bits (n div 2) \<le> k" by (rule Suc.IH)
  then show ?case by (subst bits.simps) simp
qed

lemma bits_pos: "0 < n \<Longrightarrow> 0 < bits n"
  by (subst bits.simps) simp

lemma round_half_even_of_int [simp]: "round_half_even (of_int j) = j"
  by (simp add: round_half_even_def)

lemma b64_of_int:
  assumes "\<bar>k\<bar> < 2 ^ 53"
  shows "b64 (of_int k) = Finite (of_int k)"
proof (cases "k = 0")
  case True
  then show ?thesis by (simp add: b64_def)
next
  case False
  define n where "n = nat \<bar>k\<bar>"
  define b where "b = bits n"
  have n: "0 < n" "n < 2 ^ 53"
    using False assms by (simp_all add: n_def nat_less_iff)
  have b: "0 < b" "b \<le> 53"
    using n by (simp_all add: b_def bits_pos bits_bound)
  have absx: "\<bar>rat_of_int k\<bar> = of_int \<bar>k\<bar>" by simp
  have "1 \<le> \<bar>k\<bar>" using False by simp
  then have one: "1 \<le> (of_int \<bar>k\<bar> :: rat)"
    by (metis of_int_1 of_int_le_iff)
  have fl: "floor_log2 (of_int \<bar>k\<bar>) = int b - 1"
    using one by (simp add: floor_log2_def b_def n_def del: of_int_abs)
  have e: "max (- 1022) (int b - 1) = int b - 1"
    using b by simp
  have up: "scale2 (of_int \<bar>k\<bar>) (52 - (int b - 1)) = of_int (\<bar>k\<bar> * 2 ^ (53 - b))"
    using b by (simp add: scale2_def nat_diff_distrib' del: of_int_abs) 
  have down: "scale2 (of_int (\<bar>k\<bar> * 2 ^ (53 - b))) (int b - 1 - 52) = of_int \<bar>k\<bar>"
  proof (cases "b = 53")
    case True
    then show ?thesis by (simp add: scale2_def del: of_int_abs)
  next
    case False
    with b have "int b - 1 - 52 < 0" and "nat (52 - (int b - 1)) = 53 - b" by simp_all
    then show ?thesis by (simp add: scale2_def del: of_int_abs)
  qed
  have small: "\<not> (2 ^ 1024 \<le> (of_int \<bar>k\<bar> :: rat))"
  proof -
    have "(of_int \<bar>k\<bar> :: rat) < 2 ^ 53"
      using assms by (metis of_int_less_iff of_int_numeral of_int_power)
    also have "(2 :: rat) ^ 53 \<le> 2 ^ 1024"
      by (rule power_increasing) simp_all
    finally show ?thesis by simp
  qed
  have step: "b64 (of_int k) =
      (if (of_int k :: rat) = 0 then Finite 0
       else if 2 ^ 1024 \<le> (of_int \<bar>k\<bar> :: rat) then (if (of_int k :: rat) < 0 then NegInf else PosInf)
       else Finite (if (of_int k :: rat) < 0 then - of_int \<bar>k\<bar> else of_int \<bar>k\<bar>))"
    by (simp only: b64_def Let_def absx fl e up round_half_even_of_int down)
  have nz: "(of_int k :: rat) \<noteq> 0"
    using False by simp
  have sgn: "(if (of_int k :: rat) < 0 then - of_int \<bar>k\<bar> else of_int \<bar>k\<bar>) = (of_int k :: rat)"
    by simp
  show ?thesis
    by (simp only: step nz small sgn if_False)
qed

lemma b64_numeral [simp]:
  "(numeral n :: int) < 9007199254740992 \<Longrightarrow> b64 (numeral n) = Finite (numeral n)"
  "(numeral n :: int) < 9007199254740992 \<Longrightarrow> b64 (- numeral n) = Finite (- numeral n)"
  "b64 0 = Finite 0"
  "b64 1 = Finite 1"
  using b64_of_int [of "numeral n"] b64_of_int [of "- numeral n"] b64_of_int [of 1]
  by (simp_all add: b64_def)

text \<open>Above \<open>2\<^sup>5\<^sup>3\<close> a whole number may round: \<open>10\<^sup>1\<^sup>6 + 1\<close> is not a binary64 value.\<close>

lemma bits_numeral:
  "bits (numeral n) = Suc (bits (numeral n div 2))"
  "bits 0 = 0"
  "bits (Suc 0) = Suc 0"
  by (subst bits.simps, simp)+

lemma b64_large:
  "b64 10000000000000000 = Finite 10000000000000000"
  "b64 10000000000000001 = Finite 10000000000000000"
  by (simp_all add: b64_def floor_log2_def scale2_def round_half_even_def Let_def bits_numeral)

section \<open>Category resolver\<close>

lemma find_same_after_append:
  "\<not> list_ex P xs \<Longrightarrow> P x \<Longrightarrow> find P (xs @ [x]) = Some x"
  by (induction xs) auto

lemma find_Some_of_list_ex: "list_ex P xs \<Longrightarrow> \<exists>x. find P xs = Some x \<and> P x \<and> x \<in> set xs"
  by (induction xs) auto

lemma filter_nonempty_of_list_ex: "list_ex P xs \<Longrightarrow> 1 \<le> length (filter P xs)"
  by (induction xs) auto

lemma filter_empty_of_not_list_ex: "\<not> list_ex P xs \<Longrightarrow> filter P xs = []"
  by (induction xs) auto

lemma upsert_category_result:
  "upsert_category d uid name k =
     (if list_ex (same_category uid (lower name) k) (categories d)
      then (Inr (c_id (the (find (same_category uid (lower name) k) (categories d)))), d)
      else (Inr (next_id (seq_categories d) (map c_id (categories d))),
            d\<lparr>categories := categories d @
                 [\<lparr>c_id = next_id (seq_categories d) (map c_id (categories d)), c_user_id = uid,
                   c_name = lower name, c_type = k\<rparr>],
               seq_categories := next_id (seq_categories d) (map c_id (categories d))\<rparr>))"
proof (cases "list_ex (same_category uid (lower name) k) (categories d)")
  case True
  then obtain c where "find (same_category uid (lower name) k) (categories d) = Some c"
    using find_Some_of_list_ex by blast
  with True show ?thesis by (simp add: upsert_category_def Let_def)
next
  case False
  have "same_category uid (lower name) k
          \<lparr>c_id = next_id (seq_categories d) (map c_id (categories d)), c_user_id = uid,
           c_name = lower name, c_type = k\<rparr>"
    by (simp add: same_category_def)
  with False show ?thesis
    by (simp add: upsert_category_def Let_def find_same_after_append)
qed

text \<open>
  Claim C9. Calling \<open>upsert_category\<close> twice with the same user, name and kind: both
  calls return the same id and neither raises, the second call leaves the database as
  the first left it, the two calls add at most one row to \<open>categories\<close>, and the number
  of rows for the triple ends at one when there was none or one before.
\<close>

theorem upsert_category_idempotent:
  assumes first: "upsert_category d uid name k = (r1, d1)"
      and second: "upsert_category d1 uid name k = (r2, d2)"
  shows "(\<exists>i. r1 = Inr i \<and> r2 = Inr i) \<and> d2 = d1 \<and>
         length (categories d2) \<le> length (categories d) + 1 \<and>
         length (filter (same_category uid (lower name) k) (categories d2)) =
           max 1 (length (filter (same_category uid (lower name) k) (categories d)))"
proof (cases "list_ex (same_category uid (lower name) k) (categories d)")
  case True
  with first have d1: "d1 = d"
    and r1: "r1 = Inr (c_id (the (find (same_category uid (lower name) k) (categories d))))"
    by (auto simp add: upsert_category_result)
  from second True d1 have d2: "d2 = d"
    and r2: "r2 = Inr (c_id (the (find (same_category uid (lower name) k) (categories d))))"
    by (auto simp add: upsert_category_result)
  from True have "1 \<le> length (filter (same_category uid (lower name) k) (categories d))"
    by (rule filter_nonempty_of_list_ex)
  with d1 d2 r1 r2 show ?thesis by simp
next
  case False
  define nid where "nid = next_id (seq_categories d) (map c_id (categories d))"
  define c where "c = \<lparr>c_id = nid, c_user_id = uid, c_name = lower name, c_type = k\<rparr>"
  have same: "same_category uid (lower name) k c"
    by (simp add: c_def same_category_def)
  from first False have d1: "d1 = d\<lparr>categories := categories d @ [c], seq_categories := nid\<rparr>"
    and r1: "r1 = Inr nid"
    by (auto simp add: upsert_category_result nid_def c_def)
  have ex1: "list_ex (same_category uid (lower name) k) (categories d1)"
    using same by (simp add: d1)
  have "find (same_category uid (lower name) k) (categories d1) = Some c"
    using False same by (simp add: d1 find_same_after_append)
  with second ex1 have d2: "d2 = d1" and r2: "r2 = Inr nid"
    by (auto simp add: upsert_category_result c_def)
  have "filter (same_category uid (lower name) k) (categories d) = []"
    using False by (rule filter_empty_of_not_list_ex)
  with d1 d2 r1 r2 same show ?thesis by simp
qed

theorem upsert_category_idempotent_witness:
  "(\<exists>i. fst (upsert_category empty_db 1 ''Food'' Expense) = Inr i \<and>
        fst (upsert_category (snd (upsert_category empty_db 1 ''Food'' Expense)) 1 ''Food'' Expense) = Inr i) \<and>
   snd (upsert_category (snd (upsert_category empty_db 1 ''Food'' Expense)) 1 ''Food'' Expense) =
     snd (upsert_category empty_db 1 ''Food'' Expense) \<and>
   length (categories (snd (upsert_category empty_db 1 ''Food'' Expense))) = 1"
  using upsert_category_idempotent [of empty_db 1 "''Food''" Expense
      "fst (upsert_category empty_db 1 ''Food'' Expense)"
      "snd (upsert_category empty_db 1 ''Food'' Expense)"
      "fst (upsert_category (snd (upsert_category empty_db 1 ''Food'' Expense)) 1 ''Food'' Expense)"
      "snd (upsert_category (snd (upsert_category empty_db 1 ''Food'' Expense)) 1 ''Food'' Expense)"]
  by (simp add: empty_db_def upsert_category_result same_category_def)

section \<open>Recording a transaction\<close>

lemma ensure_user_tables [simp]:
  "categories (ensure_user d uid) = categories d"
  "transactions (ensure_user d uid) = transactions d"
  "budgets (ensure_user d uid) = budgets d"
  "seq_categories (ensure_user d uid) = seq_categories d"
  "seq_transactions (ensure_user d uid) = seq_transactions d"
  "seq_budgets (ensure_user d uid) = seq_budgets d"
  by (simp_all add: ensure_user_def)

lemma upsert_category_tables [simp]:
  "transactions (snd (upsert_category d uid name k)) = transactions d"
  "budgets (snd (upsert_category d uid name k)) = budgets d"
  "users (snd (upsert_category d uid name k)) = users d"
  "seq_transactions (snd (upsert_category d uid name k)) = seq_transactions d"
  "seq_budgets (snd (upsert_category d uid name k)) = seq_budgets d"
  by (simp_all add: upsert_category_result)

lemma upsert_category_returns: "\<exists>i. fst (upsert_category d uid name k) = Inr i"
  by (simp add: upsert_category_result)

lemma add_txn_core_transactions:
  assumes "add_txn_core d now uid a nt k = (Inr c, d')"
  shows "\<exists>tid cid. transactions d' = transactions d @
           [\<lparr>t_id = tid, t_user_id = uid, t_amount = sql_real (amount_val k a),
             t_category_id = cid, t_ts = iso_utc now, t_note = nt, t_type = k\<rparr>]"
proof -
  from assms obtain cn where cn: "cat_name_of nt = Inr cn"
    by (cases "cat_name_of nt") (auto simp add: add_txn_core_def Let_def)
  obtain r d2 where up: "upsert_category (ensure_user d uid) uid cn k = (r, d2)"
    by (cases "upsert_category (ensure_user d uid) uid cn k")
  have tr: "transactions d2 = transactions d"
    using upsert_category_tables(1) [of "ensure_user d uid" uid cn k] up by simp
  from upsert_category_returns [of "ensure_user d uid" uid cn k] up
  obtain i where r: "r = Inr i" by auto
  from assms cn up r tr show ?thesis
    by (auto simp add: add_txn_core_def Let_def)
qed

text \<open>The category name of an empty note and of a note with a first word.\<close>

lemma cat_name_of_word:
  "cat_name_of [] = Inr misc_label"
  "split_ws nt = w # ws \<Longrightarrow> cat_name_of nt = Inr (lower w)"
  by (auto simp add: cat_name_of_def misc_label_def lower_def lower_char_def split_ws_def)

lemma cat_name_of_example: "cat_name_of ''Coffee morning'' = Inr ''coffee''"
  by (simp add: cat_name_of_def split_ws_def is_space_def lower_def lower_char_def)

lemma split_acc_spaces: "list_all is_space s \<Longrightarrow> split_acc [] s = []"
  by (induction s) auto

text \<open>
  Claim C6, at the input where the code departs from it. A note that is not empty and
  holds only whitespace is true for \<open>if note\<close>, its \<open>split()\<close> is the empty list, and
  \<open>[0]\<close> raises \<open>IndexError\<close>: \<open>add_txn_core\<close> stops after \<open>ensure_user\<close> and records
  nothing, where the claim has the fallback label and no failure.
\<close>

theorem whitespace_note_raises:
  assumes "nt \<noteq> []" and "list_all is_space nt"
  shows "cat_name_of nt = Inl IndexError \<and>
         add_txn_core d now uid a nt k = (Inl IndexError, ensure_user d uid)"
  using assms by (simp add: cat_name_of_def split_ws_def split_acc_spaces add_txn_core_def)

theorem whitespace_note_raises_witness:
  "'' '' \<noteq> [] \<and> list_all is_space '' '' \<and> cat_name_of '' '' = Inl IndexError \<and>
   add_txn_core empty_db (utc 2024 3 9 10 0 0 0) 1 (Finite 100) '' '' Expense =
     (Inl IndexError, ensure_user empty_db 1)"
  using whitespace_note_raises [of "'' ''" empty_db "utc 2024 3 9 10 0 0 0" 1 "Finite 100" Expense]
  by (simp add: is_space_def)

lemma sql_sum_Nil [simp]: "sql_sum [] = None"
  by (simp add: sql_sum_def List.map_filter_def)

text \<open>
  Claim C2, at the input where the code departs from it. When no transaction of the user
  has \<open>ts >= start\<close>, the aggregate row of \<open>get_totals\<close> is three \<open>NULL\<close>s, not zeros;
  the row is not \<open>None\<close>, so \<open>row or (0, 0, 0)\<close> keeps it, and \<open>cmd_sum\<close> raises
  \<open>TypeError\<close> when it formats the first of them.
\<close>

theorem totals_of_no_rows_are_null:
  "(rows_since d uid s = [] \<longrightarrow> get_totals d uid s = Some (None, None, None)) \<and>
   (rows_since d uid (iso_utc (month_start now)) = [] \<longrightarrow> cmd_sum d now uid = Inl TypeError)"
  by (simp add: get_totals_def cmd_sum_def sql_round2_def sql_abs_def row_or_zeros_def
      format_totals_def format_2f_def)

theorem totals_of_no_rows_are_null_witness:
  "rows_since (ensure_user empty_db 1) 1 (iso_utc (month_start (utc 2024 3 9 10 0 0 0))) = [] \<and>
   get_totals (ensure_user empty_db 1) 1 (iso_utc (month_start (utc 2024 3 9 10 0 0 0))) =
     Some (None, None, None) \<and>
   cmd_sum (ensure_user empty_db 1) (utc 2024 3 9 10 0 0 0) 1 = Inl TypeError"
  using totals_of_no_rows_are_null [of "ensure_user empty_db 1" 1
      "iso_utc (month_start (utc 2024 3 9 10 0 0 0))" "utc 2024 3 9 10 0 0 0"]
  by (simp add: rows_since_def empty_db_def)

text \<open>
  Claim C10. \<open>parse_amount_and_note\<close> accepts every first token that \<open>float\<close> reads
  after the comma is replaced, among them \<open>-250\<close>, \<open>inf\<close> and \<open>nan\<close>; for the kind income
  \<open>add_txn_core\<close> stores the amount as it is, whatever float it is; and \<open>/inc -250\<close> on
  the empty database persists a transaction of kind income whose amount is negative.
\<close>

theorem income_amount_not_normalised:
  "(py_float (replace_comma tok) = Some a \<longrightarrow>
      parse_amount_and_note (tok # rest) = Parsed (Some a) (strip (join_sp rest))) \<and>
   p_amount (parse_amount_and_note [''-250'']) = Some (Finite (- 250)) \<and>
   p_amount (parse_amount_and_note [''inf'']) = Some PosInf \<and>
   p_amount (parse_amount_and_note [''nan'']) = Some NaN \<and>
   amount_val Income a = a \<and>
   (add_txn_core d now uid a nt Income = (Inr c, d') \<longrightarrow>
      map t_amount (transactions d') = map t_amount (transactions d) @ [sql_real a] \<and>
      map t_type (transactions d') = map t_type (transactions d) @ [Income]) \<and>
   map t_type (transactions (snd (cmd_inc empty_db now uid [''-250'']))) = [Income] \<and>
   map t_amount (transactions (snd (cmd_inc empty_db now uid [''-250'']))) =
     [Some (Finite (- 250))] \<and>
   flt (Finite (- 250)) (Finite 0)"
proof -
  have p: "py_float (replace_comma tok) = Some a \<longrightarrow>
      parse_amount_and_note (tok # rest) = Parsed (Some a) (strip (join_sp rest))"
    by (simp add: parse_amount_and_note_def)
  have e1: "p_amount (parse_amount_and_note [''-250'']) = Some (Finite (- 250))"
    by (simp add: text_defs)
  have e2: "p_amount (parse_amount_and_note [''inf'']) = Some PosInf"
    by (simp add: text_defs)
  have e3: "p_amount (parse_amount_and_note [''nan'']) = Some NaN"
    by (simp add: text_defs)
  have v: "amount_val Income a = a"
    by (simp add: amount_val_def)
  have s: "add_txn_core d now uid a nt Income = (Inr c, d') \<longrightarrow>
      map t_amount (transactions d') = map t_amount (transactions d) @ [sql_real a] \<and>
      map t_type (transactions d') = map t_type (transactions d) @ [Income]"
    using add_txn_core_transactions [of d now uid a nt Income c d'] v by auto
  have x: "map t_type (transactions (snd (cmd_inc empty_db now uid [''-250'']))) = [Income] \<and>
      map t_amount (transactions (snd (cmd_inc empty_db now uid [''-250'']))) =
        [Some (Finite (- 250))]"
    by (simp add: text_defs store_defs Let_def)
  from p e1 e2 e3 v s x show ?thesis by simp
qed

theorem income_amount_not_normalised_witness:
  "py_float (replace_comma ''-250'') = Some (Finite (- 250)) \<and>
   parse_amount_and_note [''-250'', ''refund''] = Parsed (Some (Finite (- 250))) ''refund'' \<and>
   amount_val Income (Finite (- 250)) = Finite (- 250) \<and>
   add_txn_core empty_db (utc 2024 3 9 10 0 0 0) 1 (Finite (- 250)) ''refund'' Income =
     (Inr ''refund'', snd (cmd_inc empty_db (utc 2024 3 9 10 0 0 0) 1 [''-250'', ''refund''])) \<and>
   map t_amount (transactions (snd (cmd_inc empty_db (utc 2024 3 9 10 0 0 0) 1 [''-250'', ''refund''])))
     = [Some (Finite (- 250))]"
  using income_amount_not_normalised [of "''-250''" "Finite (- 250)" "[''refund'']" empty_db
      "utc 2024 3 9 10 0 0 0" 1 "''refund''" "''refund''"
      "snd (cmd_inc empty_db (utc 2024 3 9 10 0 0 0) 1 [''-250'', ''refund''])"]
  by (simp add: text_defs store_defs time_defs Let_def)






section \<open>Digest, periods and month boundaries\<close>

lemma db_two_days_value:
  "db_two_days =
     \<lparr>users = [\<lparr>u_id = 1, u_digest_hour_utc = Some 18\<rparr>],
      categories = [\<lparr>c_id = 1, c_user_id = 1, c_name = ''food'', c_type = Expense\<rparr>],
      transactions =
        [\<lparr>t_id = 1, t_user_id = 1, t_amount = Some (Finite (- 100)), t_category_id = 1,
          t_ts = ''2024-03-09T10:00:00Z'', t_note = ''food'', t_type = Expense\<rparr>,
         \<lparr>t_id = 2, t_user_id = 1, t_amount = Some (Finite (- 50)), t_category_id = 1,
          t_ts = ''2024-03-10T09:00:00Z'', t_note = ''food'', t_type = Expense\<rparr>],
      budgets = [], seq_categories = 1, seq_transactions = 2, seq_budgets = 0\<rparr>"
  by (simp add: db_two_days_def text_defs time_defs store_defs Let_def)

lemma digest_instants:
  "iso_utc (month_start (utc 2024 3 10 18 0 0 0)) = ''2024-03-01T00:00:00Z''"
  "iso_utc (midnight (utc 2024 3 10 18 0 0 0)) = ''2024-03-10T00:00:00Z''"
  "minus_one_day (utc 2024 3 10 18 0 0 0) = Inr (utc 2024 3 9 18 0 0 0)"
  "iso_utc (midnight (utc 2024 3 9 18 0 0 0)) = ''2024-03-09T00:00:00Z''"
  by (simp_all add: time_defs digit_char_def)

lemma db_two_days_totals:
  "get_totals db_two_days 1 ''2024-03-01T00:00:00Z'' =
     Some (Some (Finite 0), Some (Finite 150), Some (Finite (- 150)))"
  "get_totals db_two_days 1 ''2024-03-09T00:00:00Z'' =
     Some (Some (Finite 0), Some (Finite 150), Some (Finite (- 150)))"
  "get_totals db_two_days 1 ''2024-03-10T00:00:00Z'' =
     Some (Some (Finite 0), Some (Finite 50), Some (Finite (- 50)))"
  by (simp_all add: db_two_days_value query_defs)

lemma db_two_days_digest_text:
  "digest_text db_two_days (utc 2024 3 10 18 0 0 0) 1 =
     Inr ((Finite 0, Finite 150, Finite (- 150)), (Finite 0, Finite 150, Finite (- 150)))"
  by (simp add: digest_text_def digest_instants db_two_days_totals row_or_zeros_def
      format_totals_def format_2f_def)

text \<open>
  Claim C1, at an input where the code departs from it. User 1 spent 100 yesterday and 50
  today; the digest of 18:00 prints 150 as today's expense. \<open>send_daily_digest\<close> takes
  the totals for its "today" line since \<open>y0\<close>, the midnight of the day before; the totals
  since today's midnight (\<open>y1\<close>, which it computes and never uses) are 50. The month
  line is the totals since the first of the month, as claimed.
\<close>

theorem digest_today_counts_yesterday:
  "send_daily_digest db_two_days (utc 2024 3 10 18 0 0 0) =
     Inr [(1, (Finite 0, Finite 150, Finite (- 150)), (Finite 0, Finite 150, Finite (- 150)))] \<and>
   iso_utc (midnight (utc 2024 3 10 18 0 0 0)) = ''2024-03-10T00:00:00Z'' \<and>
   get_totals db_two_days 1 ''2024-03-10T00:00:00Z'' =
     Some (Some (Finite 0), Some (Finite 50), Some (Finite (- 50))) \<and>
   get_totals db_two_days 1 ''2024-03-09T00:00:00Z'' =
     Some (Some (Finite 0), Some (Finite 150), Some (Finite (- 150)))"
proof -
  have "users db_two_days = [\<lparr>u_id = 1, u_digest_hour_utc = Some 18\<rparr>]"
    by (simp add: db_two_days_value)
  then have "send_daily_digest db_two_days (utc 2024 3 10 18 0 0 0) =
     Inr [(1, (Finite 0, Finite 150, Finite (- 150)), (Finite 0, Finite 150, Finite (- 150)))]"
    by (simp add: send_daily_digest_def db_two_days_digest_text) (simp add: utc_def)
  then show ?thesis
    by (simp add: digest_instants db_two_days_totals)
qed

lemma py_int_examples:
  "py_int ''abc'' = Inl ValueError"
  "py_int '''' = Inl ValueError"
  "py_int ''2024'' = Inr 2024"
  "py_int ''0000'' = Inr 0"
  "py_int ''13'' = Inr 13"
  "py_int ''01'' = Inr 1"
  "py_int ''02'' = Inr 2"
  "py_int ''03'' = Inr 3"
  by (simp_all add: text_defs)

lemma period_bounds_examples:
  "period_bounds ''abc'' = Inl ValueError"
  "period_bounds ''2024-13'' = Inl ValueError"
  "period_bounds ''0000-01'' = Inl ValueError"
  "period_bounds ''2024-02'' = Inr (''2024-02-01T00:00:00Z'', ''2024-03-01T00:00:00Z'')"
  "period_bounds ''2024-03'' = Inr (''2024-03-01T00:00:00Z'', ''2024-04-01T00:00:00Z'')"
  by (simp_all add: period_bounds_def py_int_examples month_bounds_utc_def mk_datetime_def
      days_in_month_def is_leap_def iso_utc_def zfill_def dec.simps digit_char_def)

lemma replicate_3: "replicate 3 c = [c, c, c]"
  by (simp add: numeral_3_eq_3)

lemma period_arg_examples:
  "period_arg now [''0000-01''] = ''0000-01''"
  "period_arg now [''2024-02''] = ''2024-02''"
  "period_arg now [''2024-03''] = ''2024-03''"
  by (simp_all add: period_arg_def strip_def is_space_def py_int_examples format_0d_def zfill_def
      dec.simps digit_char_def replicate_3)

text \<open>
  Claim C5, at inputs where the code departs from it. \<open>cmd_budget_view\<close> parses the
  argument as it was typed: \<open>abc\<close> and \<open>2024-13\<close> raise \<open>ValueError\<close>.
  \<open>cmd_budget_set\<close> stores the period \<open>2024-13\<close> as typed. \<open>cmd_list\<close> and
  \<open>cmd_export\<close>, which do fall back to the current month, accept \<open>0000-01\<close>, and
  \<open>datetime\<close> then raises \<open>ValueError\<close> for the year 0.
\<close>

theorem budget_period_not_validated:
  "fst (cmd_budget_view empty_db now 1 [''abc'']) = Inl ValueError \<and>
   fst (cmd_budget_view empty_db now 1 [''2024-13'']) = Inl ValueError \<and>
   fst (cmd_budget_set empty_db now 1 [''food'', ''1000'', ''2024-13'']) =
     Inr (BudgetSet ''food'' ''2024-13'' (Finite 1000)) \<and>
   map b_period (budgets (snd (cmd_budget_set empty_db now 1 [''food'', ''1000'', ''2024-13''])))
     = [''2024-13''] \<and>
   period_arg now [''0000-01''] = ''0000-01'' \<and>
   fst (cmd_list empty_db now 1 [''0000-01'']) = Inl ValueError \<and>
   fst (cmd_export empty_db now 1 [''0000-01'']) = Inl ValueError"
proof -
  have view: "fst (cmd_budget_view empty_db now 1 [''abc'']) = Inl ValueError"
    "fst (cmd_budget_view empty_db now 1 [''2024-13'']) = Inl ValueError"
    by (simp_all add: cmd_budget_view_def period_bounds_examples)
  have amount: "py_float (replace_comma ''1000'') = Some (Finite 1000)"
    by (simp add: text_defs)
  have name: "lower ''food'' = ''food''"
    by (simp add: lower_def lower_char_def)
  have set: "cmd_budget_set empty_db now 1 [''food'', ''1000'', ''2024-13''] =
     (Inr (BudgetSet ''food'' ''2024-13'' (Finite 1000)),
      \<lparr>users = [\<lparr>u_id = 1, u_digest_hour_utc = Some 18\<rparr>],
       categories = [\<lparr>c_id = 1, c_user_id = 1, c_name = ''food'', c_type = Expense\<rparr>],
       transactions = [],
       budgets = [\<lparr>b_id = 1, b_user_id = 1, b_category_id = 1, b_period = ''2024-13'',
                   b_amount = Some (Finite 1000)\<rparr>],
       seq_categories = 1, seq_transactions = 0, seq_budgets = 1\<rparr>)"
    by (simp add: cmd_budget_set_def amount name resolve_category_def upsert_budget_def
        same_budget_def store_defs Let_def)
  have list: "fst (cmd_list empty_db now 1 [''0000-01'']) = Inl ValueError"
    "fst (cmd_export empty_db now 1 [''0000-01'']) = Inl ValueError"
    by (simp_all add: cmd_list_def cmd_export_def period_arg_examples period_bounds_examples)
  from view set list show ?thesis
    by (simp add: period_arg_examples)
qed

text \<open>The bounds of a month, and the one month of \<open>datetime\<close>'s range without them.\<close>

lemma days_in_month_pos: "Suc 0 \<le> days_in_month a b"
  by (simp add: days_in_month_def)

lemma mk_datetime_first:
  "1 \<le> y \<Longrightarrow> y \<le> 9999 \<Longrightarrow> 1 \<le> m \<Longrightarrow> m \<le> 12 \<Longrightarrow>
   mk_datetime y m 1 = Inr (utc (nat y) (nat m) 1 0 0 0 0)"
  by (simp add: mk_datetime_def utc_def days_in_month_pos)

lemma month_bounds_utc_value:
  assumes "1 \<le> y" and "y \<le> 9999" and "1 \<le> m" and "m \<le> 12" and "y < 9999 \<or> m < 12"
  shows "month_bounds_utc y m =
           Inr (iso_utc (utc (nat y) (nat m) 1 0 0 0 0),
                iso_utc (if m = 12 then utc (nat (y + 1)) 1 1 0 0 0 0
                         else utc (nat y) (nat (m + 1)) 1 0 0 0 0))"
proof (cases "m = 12")
  case True
  with assms have "mk_datetime (y + 1) 1 1 = Inr (utc (nat (y + 1)) (nat 1) 1 0 0 0 0)"
    by (intro mk_datetime_first) simp_all
  with True assms show ?thesis
    by (simp add: month_bounds_utc_def mk_datetime_first)
next
  case False
  with assms have "mk_datetime y (m + 1) 1 = Inr (utc (nat y) (nat (m + 1)) 1 0 0 0 0)"
    by (intro mk_datetime_first) simp_all
  with False assms show ?thesis
    by (simp add: month_bounds_utc_def mk_datetime_first)
qed

lemma month_bounds_utc_last: "month_bounds_utc 9999 12 = Inl ValueError"
  by (simp add: month_bounds_utc_def mk_datetime_def days_in_month_def)

lemma db_first_second_value:
  "db_first_second =
     \<lparr>users = [\<lparr>u_id = 1, u_digest_hour_utc = Some 18\<rparr>],
      categories = [\<lparr>c_id = 1, c_user_id = 1, c_name = ''food'', c_type = Expense\<rparr>],
      transactions =
        [\<lparr>t_id = 1, t_user_id = 1, t_amount = Some (Finite (- 100)), t_category_id = 1,
          t_ts = ''2024-03-01T00:00:00.500000Z'', t_note = ''food'', t_type = Expense\<rparr>],
      budgets = [], seq_categories = 1, seq_transactions = 1, seq_budgets = 0\<rparr>"
  by (simp add: db_first_second_def text_defs time_defs store_defs Let_def)

lemma db_first_second_month_rows:
  "month_rows (ensure_user db_first_second 1) 1 ''2024-03-01T00:00:00Z'' ''2024-04-01T00:00:00Z'' = []"
  "month_rows (ensure_user db_first_second 1) 1 ''2024-02-01T00:00:00Z'' ''2024-03-01T00:00:00Z'' =
     [(\<lparr>t_id = 1, t_user_id = 1, t_amount = Some (Finite (- 100)), t_category_id = 1,
        t_ts = ''2024-03-01T00:00:00.500000Z'', t_note = ''food'', t_type = Expense\<rparr>,
       \<lparr>c_id = 1, c_user_id = 1, c_name = ''food'', c_type = Expense\<rparr>)]"
  by (simp_all add: month_rows_def db_first_second_value ensure_user_def)

text \<open>
  Claim C7, at an input where the code departs from it. A transaction recorded half a
  second after midnight on 1 March 2024 is stored with the text
  \<open>2024-03-01T00:00:00.500000Z\<close>. As text it is below March's start
  \<open>2024-03-01T00:00:00Z\<close>, because \<open>.\<close> sorts before \<open>Z\<close>: the queries of March do not
  select it, and the queries of February do.
\<close>

theorem first_second_of_month_in_previous_month:
  "map t_ts (transactions db_first_second) = [iso_utc (utc 2024 3 1 0 0 0 500000)] \<and>
   iso_utc (utc 2024 3 1 0 0 0 500000) = ''2024-03-01T00:00:00.500000Z'' \<and>
   month_bounds_utc 2024 3 = Inr (''2024-03-01T00:00:00Z'', ''2024-04-01T00:00:00Z'') \<and>
   month_bounds_utc 2024 2 = Inr (''2024-02-01T00:00:00Z'', ''2024-03-01T00:00:00Z'') \<and>
   fst (cmd_list db_first_second now 1 [''2024-03'']) = Inr (''2024-03'', []) \<and>
   fst (cmd_export db_first_second now 1 [''2024-03'']) = Inr (''2024-03'', []) \<and>
   fst (cmd_list db_first_second now 1 [''2024-02'']) =
     Inr (''2024-02'', [\<lparr>l_ts = ''2024-03-01T00:00:00.500000Z'', l_amount = Some (Finite (- 100)),
                          l_category = ''food'', l_note = ''food'', l_type = Expense\<rparr>]) \<and>
   fst (cmd_export db_first_second now 1 [''2024-02'']) =
     Inr (''2024-02'', [\<lparr>e_ts = ''2024-03-01T00:00:00.500000Z'', e_type = Expense,
                          e_amount = Some (Finite 100), e_category = ''food'', e_note = ''food''\<rparr>])"
proof -
  have ts: "iso_utc (utc 2024 3 1 0 0 0 500000) = ''2024-03-01T00:00:00.500000Z''"
    by (simp add: utc_def iso_utc_def zfill_def dec.simps digit_char_def)
  have stored: "map t_ts (transactions db_first_second) = [''2024-03-01T00:00:00.500000Z'']"
    by (simp add: db_first_second_value)
  have bounds: "month_bounds_utc 2024 3 = Inr (''2024-03-01T00:00:00Z'', ''2024-04-01T00:00:00Z'')"
    "month_bounds_utc 2024 2 = Inr (''2024-02-01T00:00:00Z'', ''2024-03-01T00:00:00Z'')"
    by (simp_all add: month_bounds_utc_def mk_datetime_def days_in_month_def is_leap_def
        iso_utc_def zfill_def dec.simps digit_char_def)
  have march: "fst (cmd_list db_first_second now 1 [''2024-03'']) = Inr (''2024-03'', [])"
    "fst (cmd_export db_first_second now 1 [''2024-03'']) = Inr (''2024-03'', [])"
    by (simp_all add: cmd_list_def cmd_export_def list_row_of_def export_row_of_def
        period_arg_examples period_bounds_examples db_first_second_month_rows)
  have february: "fst (cmd_list db_first_second now 1 [''2024-02'']) =
     Inr (''2024-02'', [\<lparr>l_ts = ''2024-03-01T00:00:00.500000Z'', l_amount = Some (Finite (- 100)),
                          l_category = ''food'', l_note = ''food'', l_type = Expense\<rparr>])"
    "fst (cmd_export db_first_second now 1 [''2024-02'']) =
     Inr (''2024-02'', [\<lparr>e_ts = ''2024-03-01T00:00:00.500000Z'', e_type = Expense,
                          e_amount = Some (Finite 100), e_category = ''food'', e_note = ''food''\<rparr>])"
    by (simp_all add: cmd_list_def cmd_export_def list_row_of_def export_row_of_def
        period_arg_examples period_bounds_examples db_first_second_month_rows sql_abs_def)
  from ts stored bounds march february show ?thesis by simp
qed

lemma db_boundary_value:
  "db_boundary =
     \<lparr>users = [\<lparr>u_id = 1, u_digest_hour_utc = Some 18\<rparr>],
      categories = [\<lparr>c_id = 1, c_user_id = 1, c_name = ''food'', c_type = Expense\<rparr>],
      transactions =
        [\<lparr>t_id = 1, t_user_id = 1, t_amount = Some (Finite (- 30)), t_category_id = 1,
          t_ts = ''2024-02-29T23:59:59Z'', t_note = ''food'', t_type = Expense\<rparr>,
         \<lparr>t_id = 2, t_user_id = 1, t_amount = Some (Finite (- 70)), t_category_id = 1,
          t_ts = ''2024-03-01T00:00:00Z'', t_note = ''food'', t_type = Expense\<rparr>],
      budgets = [], seq_categories = 1, seq_transactions = 2, seq_budgets = 0\<rparr>"
  by (simp add: db_boundary_def text_defs time_defs store_defs Let_def)

text \<open>The two instants of the specification's boundary example have whole seconds, and
  each is listed and exported in its own month only.\<close>

lemma whole_second_boundaries:
  "map l_ts (snd (projr (fst (cmd_list db_boundary now 1 [''2024-03''])))) = [''2024-03-01T00:00:00Z'']"
  "map l_ts (snd (projr (fst (cmd_list db_boundary now 1 [''2024-02''])))) = [''2024-02-29T23:59:59Z'']"
  "map e_ts (snd (projr (fst (cmd_export db_boundary now 1 [''2024-03''])))) = [''2024-03-01T00:00:00Z'']"
  "map e_ts (snd (projr (fst (cmd_export db_boundary now 1 [''2024-02''])))) = [''2024-02-29T23:59:59Z'']"
  by (simp_all add: cmd_list_def cmd_export_def list_row_of_def export_row_of_def
      period_arg_examples period_bounds_examples month_rows_def db_boundary_value ensure_user_def)

section \<open>Budgets\<close>

lemma lower_char_idem: "lower_char (lower_char c) = lower_char c"
  by (simp add: lower_char_def)

lemma budget_category_resolution:
  "(case resolve_category d uid n of
      None \<Rightarrow> upsert_category d uid n Expense
    | Some i \<Rightarrow> if i = 0 then upsert_category d uid n Expense else (Inr i, d))
   = upsert_category d uid n Expense"
proof (cases "list_ex (same_category uid (lower n) Expense) (categories d)")
  case True
  then obtain c where "find (same_category uid (lower n) Expense) (categories d) = Some c"
    using find_Some_of_list_ex by blast
  with True show ?thesis
    by (simp add: resolve_category_def upsert_category_result)
next
  case False
  then have "find (same_category uid (lower n) Expense) (categories d) = None"
    by (simp add: find_None_iff list_ex_iff)
  then show ?thesis
    by (simp add: resolve_category_def)
qed

lemma cmd_budget_set_result:
  assumes "py_float (replace_comma s) = Some a"
  shows "cmd_budget_set d now uid [cat, s, period] =
           (Inr (BudgetSet (lower cat) period a),
            upsert_budget (snd (upsert_category (ensure_user d uid) uid (lower cat) Expense)) uid
              (projr (fst (upsert_category (ensure_user d uid) uid (lower cat) Expense))) period a)"
proof -
  obtain r d2 where up: "upsert_category (ensure_user d uid) uid (lower cat) Expense = (r, d2)"
    by (cases "upsert_category (ensure_user d uid) uid (lower cat) Expense")
  with upsert_category_returns [of "ensure_user d uid" uid "lower cat" Expense]
  obtain i where i: "r = Inr i" by auto
  from assms up i show ?thesis
    by (simp add: cmd_budget_set_def Let_def budget_category_resolution)
qed

lemma key_filter_le_1:
  "distinct (map budget_key bs) \<Longrightarrow>
   length (filter (same_budget uid cid period) bs) \<le> 1"
proof (induction bs)
  case Nil
  then show ?case by simp
next
  case (Cons b bs)
  show ?case
  proof (cases "same_budget uid cid period b")
    case True
    then have key: "budget_key b = (uid, cid, period)"
      by (auto simp add: same_budget_def budget_key_def)
    have "filter (same_budget uid cid period) bs = []"
    proof (rule ccontr)
      assume "filter (same_budget uid cid period) bs \<noteq> []"
      then obtain x where "x \<in> set bs" and "same_budget uid cid period x"
        by (metis filter_False)
      then have "budget_key x = budget_key b" and "x \<in> set bs"
        using key by (auto simp add: same_budget_def budget_key_def)
      with Cons.prems show False
        by (metis distinct.simps(2) image_eqI list.simps(9) list.set_map)
    qed
    with True show ?thesis by simp
  next
    case False
    with Cons show ?thesis by simp
  qed
qed

lemma upsert_budget_rows:
  "filter (same_budget uid cid period) (budgets (upsert_budget d uid cid period a)) =
     (if list_ex (same_budget uid cid period) (budgets d)
      then map (\<lambda>b. b\<lparr>b_amount := sql_real a\<rparr>) (filter (same_budget uid cid period) (budgets d))
      else [\<lparr>b_id = next_id (seq_budgets d) (map b_id (budgets d)), b_user_id = uid,
             b_category_id = cid, b_period = period, b_amount = sql_real a\<rparr>])"
proof (cases "list_ex (same_budget uid cid period) (budgets d)")
  case True
  have "filter (same_budget uid cid period)
          (map (\<lambda>b. if same_budget uid cid period b then b\<lparr>b_amount := sql_real a\<rparr> else b) bs) =
        map (\<lambda>b. b\<lparr>b_amount := sql_real a\<rparr>) (filter (same_budget uid cid period) bs)" for bs
    by (induction bs) (auto simp add: same_budget_def)
  with True show ?thesis by (simp add: upsert_budget_def)
next
  case False
  then have "filter (same_budget uid cid period) (budgets d) = []"
    by (rule filter_empty_of_not_list_ex)
  with False show ?thesis
    by (simp add: upsert_budget_def Let_def same_budget_def)
qed

lemma upsert_budget_length:
  "length (budgets (upsert_budget d uid cid period a)) =
     (if list_ex (same_budget uid cid period) (budgets d) then length (budgets d)
      else length (budgets d) + 1)"
  by (simp add: upsert_budget_def Let_def)

lemma upsert_budget_tables [simp]:
  "categories (upsert_budget d uid cid period a) = categories d"
  "seq_categories (upsert_budget d uid cid period a) = seq_categories d"
  "transactions (upsert_budget d uid cid period a) = transactions d"
  by (simp_all add: upsert_budget_def Let_def)

lemma upsert_budget_exists:
  "list_ex (same_budget uid cid period) (budgets (upsert_budget d uid cid period a))"
proof -
  have "filter (same_budget uid cid period) (budgets (upsert_budget d uid cid period a)) \<noteq> []"
    using filter_nonempty_of_list_ex [of "same_budget uid cid period" "budgets d"]
    by (auto simp add: upsert_budget_rows)
  then show ?thesis
    by (metis filter_empty_of_not_list_ex)
qed

lemma lower_idem: "lower (lower s) = lower s"
  by (simp add: lower_def lower_char_idem)

lemma upsert_category_stable:
  assumes "upsert_category d uid n k = (Inr i, d')" and "categories d'' = categories d'"
  shows "upsert_category d'' uid n k = (Inr i, d'')"
proof (cases "list_ex (same_category uid (lower n) k) (categories d)")
  case True
  with assms(1) have "d' = d"
    and "i = c_id (the (find (same_category uid (lower n) k) (categories d)))"
    by (auto simp add: upsert_category_result)
  with True assms(2) show ?thesis
    by (simp add: upsert_category_result)
next
  case False
  define c where "c = \<lparr>c_id = next_id (seq_categories d) (map c_id (categories d)),
                        c_user_id = uid, c_name = lower n, c_type = k\<rparr>"
  have same: "same_category uid (lower n) k c"
    by (simp add: c_def same_category_def)
  from assms(1) False have cats: "categories d' = categories d @ [c]" and i: "i = c_id c"
    by (auto simp add: upsert_category_result c_def)
  have "find (same_category uid (lower n) k) (categories d'') = Some c"
    using False same by (simp add: assms(2) cats find_same_after_append)
  moreover have "list_ex (same_category uid (lower n) k) (categories d'')"
    using same by (simp add: assms(2) cats)
  ultimately show ?thesis
    by (simp add: upsert_category_result i)
qed

lemma upsert_category_resolves:
  assumes "upsert_category d uid (lower cat) Expense = (Inr i, d')"
  shows "resolve_category d' uid cat = Some i"
proof -
  have "upsert_category d' uid (lower cat) Expense = (Inr i, d')"
    using assms by (rule upsert_category_stable) simp
  moreover have "list_ex (same_category uid (lower cat) Expense) (categories d')"
  proof (cases "list_ex (same_category uid (lower cat) Expense) (categories d)")
    case True
    with assms show ?thesis by (auto simp add: upsert_category_result lower_idem)
  next
    case False
    with assms show ?thesis
      by (auto simp add: upsert_category_result lower_idem same_category_def)
  qed
  ultimately show ?thesis
    using find_Some_of_list_ex [of "same_category uid (lower cat) Expense" "categories d'"]
    by (auto simp add: resolve_category_def upsert_category_result lower_idem)
qed

lemma upsert_budget_unique:
  assumes "budgets_unique d"
  shows "budgets_unique (upsert_budget d uid cid period a)"
proof (cases "list_ex (same_budget uid cid period) (budgets d)")
  case True
  have "map budget_key
          (map (\<lambda>b. if same_budget uid cid period b then b\<lparr>b_amount := sql_real a\<rparr> else b) bs) =
        map budget_key bs" for bs
    by (induction bs) (simp_all add: budget_key_def)
  then have "map budget_key
          (map (\<lambda>b. if same_budget uid cid period b then b\<lparr>b_amount := sql_real a\<rparr> else b)
               (budgets d)) = map budget_key (budgets d)" .
  moreover have "budgets (upsert_budget d uid cid period a) =
      map (\<lambda>b. if same_budget uid cid period b then b\<lparr>b_amount := sql_real a\<rparr> else b) (budgets d)"
    using True by (simp add: upsert_budget_def)
  ultimately have "map budget_key (budgets (upsert_budget d uid cid period a)) =
      map budget_key (budgets d)"
    by (simp only:)
  with assms show ?thesis
    by (simp only: budgets_unique_def)
next
  case False
  then have "(uid, cid, period) \<notin> set (map budget_key (budgets d))"
    by (auto simp add: list_ex_iff same_budget_def budget_key_def)
  with False assms show ?thesis
    by (simp add: upsert_budget_def budgets_unique_def Let_def budget_key_def)
qed

lemma unique_budget_row:
  assumes "budgets_unique d" and "list_ex (same_budget uid cid period) (budgets d)"
  shows "\<exists>b. filter (same_budget uid cid period) (budgets d) = [b]"
proof -
  have "length (filter (same_budget uid cid period) (budgets d)) \<le> 1"
    using assms(1) unfolding budgets_unique_def by (rule key_filter_le_1)
  moreover have "1 \<le> length (filter (same_budget uid cid period) (budgets d))"
    using assms(2) by (rule filter_nonempty_of_list_ex)
  ultimately have "length (filter (same_budget uid cid period) (budgets d)) = 1"
    by simp
  then show ?thesis
    by (simp add: length_Suc_conv)
qed

text \<open>
  Claim C8. \<open>/budget_set\<close> twice for the same user, category name and period, on a
  database that satisfies \<open>UNIQUE(user_id, category_id, period)\<close>: neither call raises,
  each confirms the amount it was given, the database ends with exactly one budget row
  for the user, the category's id and the period, that row holds the second amount, the
  second call adds no row, and the constraint still holds.
\<close>

theorem budget_set_twice:
  assumes uniq: "budgets_unique d"
      and p1: "py_float (replace_comma s1) = Some a1"
      and p2: "py_float (replace_comma s2) = Some a2"
      and first: "cmd_budget_set d now uid [cat, s1, period] = (r1, d1)"
      and second: "cmd_budget_set d1 now' uid [cat, s2, period] = (r2, d2)"
  shows "r1 = Inr (BudgetSet (lower cat) period a1) \<and>
         r2 = Inr (BudgetSet (lower cat) period a2) \<and>
         (\<exists>cid b. resolve_category d2 uid cat = Some cid \<and>
                  filter (same_budget uid cid period) (budgets d2) = [b] \<and>
                  b_amount b = sql_real a2) \<and>
         length (budgets d2) = length (budgets d1) \<and>
         length (budgets d1) \<le> length (budgets d) + 1 \<and>
         budgets_unique d2"
proof -
  obtain r c1 where up: "upsert_category (ensure_user d uid) uid (lower cat) Expense = (r, c1)"
    by (cases "upsert_category (ensure_user d uid) uid (lower cat) Expense")
  with upsert_category_returns [of "ensure_user d uid" uid "lower cat" Expense]
  obtain cid where r: "r = Inr cid" by auto
  from first p1 up r have r1: "r1 = Inr (BudgetSet (lower cat) period a1)"
    and d1: "d1 = upsert_budget c1 uid cid period a1"
    by (simp_all add: cmd_budget_set_result)
  have budgets_c1: "budgets c1 = budgets d"
    using upsert_category_tables(2) [of "ensure_user d uid" uid "lower cat" Expense] up by simp
  have up2: "upsert_category (ensure_user d1 uid) uid (lower cat) Expense =
               (Inr cid, ensure_user d1 uid)"
    using up [unfolded r] by (rule upsert_category_stable) (simp add: d1)
  from second p2 up2 have r2: "r2 = Inr (BudgetSet (lower cat) period a2)"
    and d2: "d2 = upsert_budget (ensure_user d1 uid) uid cid period a2"
    by (simp_all add: cmd_budget_set_result)
  have ex1: "list_ex (same_budget uid cid period) (budgets (ensure_user d1 uid))"
    by (simp add: d1 upsert_budget_exists)
  have u_c1: "budgets_unique c1"
    using uniq by (simp add: budgets_unique_def budgets_c1)
  have u1: "budgets_unique (ensure_user d1 uid)"
    using upsert_budget_unique [OF u_c1, of uid cid period a1]
    by (simp add: budgets_unique_def d1)
  have u2: "budgets_unique d2"
    unfolding d2 using u1 by (rule upsert_budget_unique)
  from unique_budget_row [OF u1 ex1] obtain b where
    b: "filter (same_budget uid cid period) (budgets (ensure_user d1 uid)) = [b]"
    by blast
  have rows2: "filter (same_budget uid cid period) (budgets d2) = [b\<lparr>b_amount := sql_real a2\<rparr>]"
    using ex1 b by (simp add: d2 upsert_budget_rows)
  have cats2: "categories d2 = categories c1"
    by (simp add: d2 d1)
  have "resolve_category c1 uid cat = Some cid"
    using up [unfolded r] by (rule upsert_category_resolves)
  then have res: "resolve_category d2 uid cat = Some cid"
    by (simp add: resolve_category_def cats2)
  have len2: "length (budgets d2) = length (budgets d1)"
    using ex1 by (simp add: d2 upsert_budget_length)
  have len1: "length (budgets d1) \<le> length (budgets d) + 1"
    by (simp add: d1 upsert_budget_length budgets_c1)
  from r1 r2 res rows2 len2 len1 u2 show ?thesis
    by simp
qed

lemma budget_set_first:
  "cmd_budget_set empty_db (utc 2024 5 3 10 0 0 0) 1 [''food'', ''1000'', ''2024-05''] =
     (Inr (BudgetSet ''food'' ''2024-05'' (Finite 1000)),
      \<lparr>users = [\<lparr>u_id = 1, u_digest_hour_utc = Some 18\<rparr>],
       categories = [\<lparr>c_id = 1, c_user_id = 1, c_name = ''food'', c_type = Expense\<rparr>],
       transactions = [],
       budgets = [\<lparr>b_id = 1, b_user_id = 1, b_category_id = 1, b_period = ''2024-05'',
                   b_amount = Some (Finite 1000)\<rparr>],
       seq_categories = 1, seq_transactions = 0, seq_budgets = 1\<rparr>)"
  by (simp add: text_defs store_defs cmd_budget_set_def resolve_category_def upsert_budget_def
      same_budget_def Let_def)

lemma budget_set_second:
  "cmd_budget_set
     \<lparr>users = [\<lparr>u_id = 1, u_digest_hour_utc = Some 18\<rparr>],
      categories = [\<lparr>c_id = 1, c_user_id = 1, c_name = ''food'', c_type = Expense\<rparr>],
      transactions = [],
      budgets = [\<lparr>b_id = 1, b_user_id = 1, b_category_id = 1, b_period = ''2024-05'',
                  b_amount = Some (Finite 1000)\<rparr>],
      seq_categories = 1, seq_transactions = 0, seq_budgets = 1\<rparr>
     (utc 2024 5 4 10 0 0 0) 1 [''food'', ''1500'', ''2024-05''] =
     (Inr (BudgetSet ''food'' ''2024-05'' (Finite 1500)),
      \<lparr>users = [\<lparr>u_id = 1, u_digest_hour_utc = Some 18\<rparr>],
       categories = [\<lparr>c_id = 1, c_user_id = 1, c_name = ''food'', c_type = Expense\<rparr>],
       transactions = [],
       budgets = [\<lparr>b_id = 1, b_user_id = 1, b_category_id = 1, b_period = ''2024-05'',
                   b_amount = Some (Finite 1500)\<rparr>],
       seq_categories = 1, seq_transactions = 0, seq_budgets = 2\<rparr>)"
  by (simp add: text_defs store_defs cmd_budget_set_def resolve_category_def upsert_budget_def
      same_budget_def Let_def)

theorem budget_set_twice_witness:
  "budgets_unique empty_db \<and>
   py_float (replace_comma ''1000'') = Some (Finite 1000) \<and>
   py_float (replace_comma ''1500'') = Some (Finite 1500) \<and>
   budgets (snd (cmd_budget_set
                   (snd (cmd_budget_set empty_db (utc 2024 5 3 10 0 0 0) 1
                           [''food'', ''1000'', ''2024-05'']))
                   (utc 2024 5 4 10 0 0 0) 1 [''food'', ''1500'', ''2024-05''])) =
     [\<lparr>b_id = 1, b_user_id = 1, b_category_id = 1, b_period = ''2024-05'',
       b_amount = Some (Finite 1500)\<rparr>]"
proof -
  have u: "budgets_unique empty_db"
    by (simp add: budgets_unique_def empty_db_def)
  have p1: "py_float (replace_comma ''1000'') = Some (Finite 1000)"
    and p2: "py_float (replace_comma ''1500'') = Some (Finite 1500)"
    by (simp_all add: text_defs)
  note twice = budget_set_twice [OF u p1 p2 budget_set_first budget_set_second]
  from u p1 p2 twice show ?thesis
    by (simp add: budget_set_first budget_set_second)
qed

section \<open>Export and totals\<close>

lemma sum_list_insort_key:
  "sum_list (map f (insort_key k x xs)) = (f x :: rat) + sum_list (map f xs)"
  by (induction xs) simp_all

lemma sum_list_sort_key: "sum_list (map f (sort_key k xs)) = (sum_list (map f xs) :: rat)"
  by (induction xs) (simp_all add: sum_list_insort_key)

lemma sum_list_filter_if:
  "sum_list (map g (filter P xs)) = (\<Sum>x\<leftarrow>xs. if P x then g x else (0 :: rat))"
  by (induction xs) simp_all

lemma single_category:
  assumes "distinct (map c_id cs)" and "i \<in> set (map c_id cs)"
  shows "\<exists>c. filter (\<lambda>c. c_id c = i) cs = [c]"
  using assms
proof (induction cs)
  case Nil
  then show ?case by simp
next
  case (Cons c cs)
  show ?case
  proof (cases "c_id c = i")
    case True
    with Cons.prems have "c_id c \<notin> c_id ` set cs" by simp
    then have "filter (\<lambda>x. c_id x = i) cs = []"
      unfolding filter_empty_conv using True by (metis imageI)
    with True show ?thesis by simp
  next
    case False
    with Cons show ?thesis by auto
  qed
qed

lemma sum_list_joined:
  assumes "distinct (map c_id cs)"
      and "list_all (\<lambda>t. t_category_id t \<in> set (map c_id cs)) ts"
  shows "sum_list (map (\<lambda>r. h (fst r))
            (concat (map (\<lambda>t. map (\<lambda>c. (t, c)) (filter (\<lambda>c. c_id c = t_category_id t) cs)) ts)))
         = (sum_list (map h ts) :: rat)"
  using assms(2)
proof (induction ts)
  case Nil
  then show ?case by simp
next
  case (Cons t ts)
  from Cons.prems have "t_category_id t \<in> set (map c_id cs)" by simp
  with assms(1) obtain c where "filter (\<lambda>c. c_id c = t_category_id t) cs = [c]"
    using single_category by blast
  with Cons show ?case by simp
qed

lemma month_rows_sum:
  assumes "categories_ok d"
  shows "sum_list (map (\<lambda>r. h (fst r)) (month_rows d uid start_iso end_iso)) =
         (sum_list (map h (filter (\<lambda>t. t_user_id t = uid \<and> start_iso \<le> t_ts t \<and> t_ts t < end_iso)
                                  (transactions d))) :: rat)"
proof -
  from assms have "distinct (map c_id (categories d))"
    and "list_all (\<lambda>t. t_category_id t \<in> set (map c_id (categories d)))
           (filter (\<lambda>t. t_user_id t = uid \<and> start_iso \<le> t_ts t \<and> t_ts t < end_iso)
                   (transactions d))"
    by (auto simp add: categories_ok_def list_all_iff)
  then show ?thesis
    by (simp add: month_rows_def sum_list_sort_key sum_list_joined)
qed

lemma month_rows_empty:
  "filter (\<lambda>t. t_user_id t = uid \<and> start_iso \<le> t_ts t \<and> t_ts t < end_iso) (transactions d) = []
   \<Longrightarrow> month_rows d uid start_iso end_iso = []"
  by (simp add: month_rows_def)

lemma rows_since_bounded:
  assumes "none_since d uid end_iso"
  shows "filter (\<lambda>t. t_user_id t = uid \<and> start_iso \<le> t_ts t \<and> t_ts t < end_iso) (transactions d)
         = rows_since d uid start_iso"
  unfolding rows_since_def
  using assms by (intro filter_cong) (auto simp add: none_since_def list_all_iff)

lemma round2_of_int: "round2 (of_int k) = of_int k"
proof -
  have up: "\<lfloor>(of_int j :: rat) * 100 + 1 / 2\<rfloor> = j * 100" for j
    by (rule floor_unique) simp_all
  show ?thesis
  proof (cases "0 \<le> k")
    case True
    then show ?thesis by (simp add: round2_def up)
  next
    case False
    have "\<lfloor>- (of_int k :: rat) * 100 + 1 / 2\<rfloor> = - k * 100"
      using up [of "- k"] by simp
    with False show ?thesis by (simp add: round2_def)
  qed
qed

lemma sql_round2_whole:
  "\<bar>K\<bar> < 2 ^ 53 \<Longrightarrow> sql_round2 (Some (Finite (of_int K))) = Some (Finite (of_int K))"
  by (simp add: sql_round2_def round2_of_int b64_of_int)

text \<open>Adding whole numbers from left to right never rounds while the absolute values
  add up to less than \<open>2\<^sup>5\<^sup>3\<close>.\<close>

lemma foldl_fadd_ints:
  "\<bar>a\<bar> + sum_list (map abs ks) < 2 ^ 53 \<Longrightarrow>
   foldl fadd (Finite (of_int a)) (map (\<lambda>k. Finite (of_int k)) ks) =
   Finite (of_int (a + sum_list ks))"
proof (induction ks arbitrary: a)
  case Nil
  then show ?case by simp
next
  case (Cons k ks)
  have nn: "0 \<le> sum_list (map abs ks)"
    by (rule sum_list_nonneg) auto
  with Cons.prems have small: "\<bar>a + k\<bar> < 2 ^ 53"
    by simp
  have "fadd (Finite (of_int a)) (Finite (of_int k)) = b64 (of_int (a + k))"
    by simp
  also have "\<dots> = Finite (of_int (a + k))"
    using small by (rule b64_of_int)
  finally have step: "fadd (Finite (of_int a)) (Finite (of_int k)) = Finite (of_int (a + k))" .
  from Cons.prems have "\<bar>a + k\<bar> + sum_list (map abs ks) < 2 ^ 53"
    by simp
  then have "foldl fadd (Finite (of_int (a + k))) (map (\<lambda>k. Finite (of_int k)) ks) =
      Finite (of_int (a + k + sum_list ks))"
    by (rule Cons.IH)
  then show ?case
    by (simp only: list.map foldl_Cons step sum_list.Cons add.assoc)
qed

lemma sql_sum_ints:
  assumes "ks \<noteq> []" and "sum_list (map abs ks) < 2 ^ 53"
  shows "sql_sum (map (\<lambda>k. Some (Finite (of_int k))) ks) = Some (Finite (of_int (sum_list ks)))"
proof -
  have m: "List.map_filter (\<lambda>x. x) (map (\<lambda>k. Some (Finite (rat_of_int k))) ks) =
      map (\<lambda>k. Finite (of_int k)) ks"
    by (induction ks) (simp_all add: List.map_filter_def)
  from assms(1) obtain v vs where vs: "map (\<lambda>k. Finite (rat_of_int k)) ks = v # vs"
    by (cases ks) auto
  have "sql_sum (map (\<lambda>k. Some (Finite (of_int k))) ks) =
      sql_real (fsum (map (\<lambda>k. Finite (of_int k)) ks))"
    by (simp add: sql_sum_def m vs)
  also have "fsum (map (\<lambda>k. Finite (of_int k)) ks) = Finite (of_int (sum_list ks))"
    using foldl_fadd_ints [of 0 ks] assms(2) by (simp add: fsum_def)
  finally show ?thesis
    by (simp only: sql_real.simps)
qed

lemma sql_sum_whole_map:
  assumes whole: "list_all (\<lambda>x. f x = Some (Finite (of_int (g x)))) rs"
      and ne: "rs \<noteq> []"
      and small: "(\<Sum>x\<leftarrow>rs. \<bar>g x\<bar>) < 2 ^ 53"
  shows "sql_sum (map f rs) = Some (Finite (of_int (\<Sum>x\<leftarrow>rs. g x)))"
proof -
  from whole have eq: "map f rs = map (\<lambda>k. Some (Finite (of_int k))) (map g rs)"
    by (induction rs) simp_all
  have "map g rs \<noteq> []"
    using ne by simp
  moreover have "sum_list (map abs (map g rs)) < 2 ^ 53"
    using small by (simp add: comp_def)
  ultimately have "sql_sum (map (\<lambda>k. Some (Finite (of_int k))) (map g rs)) =
      Some (Finite (of_int (sum_list (map g rs))))"
    by (rule sql_sum_ints)
  then show ?thesis
    by (simp only: eq)
qed

lemma of_int_sum_list: "(of_int (sum_list (map g xs)) :: rat) = (\<Sum>x\<leftarrow>xs. of_int (g x))"
  by (induction xs) simp_all

lemma month_rows_ensure_user [simp]:
  "month_rows (ensure_user d uid') uid start_iso end_iso = month_rows d uid start_iso end_iso"
  by (simp add: month_rows_def)

lemma signed_ok_finite: "signed_ok t \<Longrightarrow> \<exists>q. t_amount t = Some (Finite q)"
  by (auto simp add: signed_ok_def split: option.splits pyfloat.splits)

lemma signed_ok_values:
  assumes "signed_ok t"
  shows "(if t_type t = Income then finite_value (sql_abs (t_amount t))
          else - finite_value (sql_abs (t_amount t))) = finite_value (t_amount t)"
    and "(if t_type t = Income then finite_value (sql_abs (t_amount t)) else 0) =
         (if t_type t = Income then finite_value (t_amount t) else 0)"
    and "(if t_type t = Expense then finite_value (sql_abs (t_amount t)) else 0) =
         (if t_type t = Expense then - finite_value (t_amount t) else 0)"
  using assms
  by (cases "t_type t";
      auto simp add: signed_ok_def sql_abs_def finite_value_def split: option.splits pyfloat.splits)+

lemma sum_list_cong_all:
  "list_all (\<lambda>x. f x = g x) xs \<Longrightarrow> sum_list (map f xs) = (sum_list (map g xs) :: rat)"
  by (induction xs) simp_all

lemma list_all_mono: "list_all P xs \<Longrightarrow> (\<And>x. P x \<Longrightarrow> Q x) \<Longrightarrow> list_all Q xs"
  by (induction xs) simp_all

lemma expense_sum_nonpos:
  "list_all signed_ok rs \<Longrightarrow>
   (\<Sum>t\<leftarrow>rs. if t_type t = Expense then finite_value (t_amount t) else 0) \<le> 0"
proof (induction rs)
  case Nil
  then show ?case by simp
next
  case (Cons t rs)
  then have "(if t_type t = Expense then finite_value (t_amount t) else 0) \<le> 0"
    by (cases "t_type t")
       (auto simp add: signed_ok_def finite_value_def split: option.splits pyfloat.splits)
  with Cons show ?case by simp
qed

text \<open>\<open>SUM\<close> over whole numbers whose absolute values add up to less than \<open>2\<^sup>5\<^sup>3\<close>.\<close>

lemma sql_sum_whole:
  assumes whole: "list_all (\<lambda>x. \<exists>k :: int. f x = Some (Finite (of_int k))) rs"
      and ne: "rs \<noteq> []"
      and small: "(\<Sum>x\<leftarrow>rs. \<bar>finite_value (f x)\<bar>) < 2 ^ 53"
  shows "\<exists>K :: int. \<bar>K\<bar> < 2 ^ 53 \<and> (\<Sum>x\<leftarrow>rs. finite_value (f x)) = of_int K \<and>
           sql_sum (map f rs) = Some (Finite (of_int K))"
proof -
  define g where "g x = \<lfloor>finite_value (f x)\<rfloor>" for x
  have fg: "list_all (\<lambda>x. f x = Some (Finite (of_int (g x)))) rs"
    using whole by (rule list_all_mono) (auto simp add: g_def finite_value_def)
  then have val: "list_all (\<lambda>x. finite_value (f x) = of_int (g x)) rs"
    by (rule list_all_mono) (simp add: finite_value_def)
  then have aval: "list_all (\<lambda>x. \<bar>finite_value (f x)\<bar> = of_int \<bar>g x\<bar>) rs"
    by (rule list_all_mono) simp
  have s: "(\<Sum>x\<leftarrow>rs. finite_value (f x)) = of_int (\<Sum>x\<leftarrow>rs. g x)"
    using sum_list_cong_all [OF val] by (simp only: of_int_sum_list)
  have "(\<Sum>x\<leftarrow>rs. \<bar>finite_value (f x)\<bar>) = of_int (\<Sum>x\<leftarrow>rs. \<bar>g x\<bar>)"
    using sum_list_cong_all [OF aval] by (simp only: of_int_sum_list)
  with small have "(of_int (\<Sum>x\<leftarrow>rs. \<bar>g x\<bar>) :: rat) < 2 ^ 53"
    by (simp only:)
  then have b: "(\<Sum>x\<leftarrow>rs. \<bar>g x\<bar>) < 2 ^ 53"
    by (metis of_int_less_iff of_int_numeral of_int_power)
  have "\<bar>\<Sum>x\<leftarrow>rs. g x\<bar> \<le> (\<Sum>x\<leftarrow>rs. \<bar>g x\<bar>)"
    using sum_list_abs [of "map g rs"] by (simp add: comp_def)
  with b have K: "\<bar>\<Sum>x\<leftarrow>rs. g x\<bar> < 2 ^ 53"
    by simp
  have "sql_sum (map f rs) = Some (Finite (of_int (\<Sum>x\<leftarrow>rs. g x)))"
    using fg ne b by (rule sql_sum_whole_map)
  with K s show ?thesis
    by blast
qed

lemma get_totals_whole:
  assumes ok: "list_all signed_ok (rows_since d uid start_iso)"
      and wh: "list_all whole_amount (rows_since d uid start_iso)"
      and small: "(\<Sum>t\<leftarrow>rows_since d uid start_iso. \<bar>finite_value (t_amount t)\<bar>) < 2 ^ 53"
      and ne: "rows_since d uid start_iso \<noteq> []"
  shows "get_totals d uid start_iso =
     Some (Some (Finite (\<Sum>t\<leftarrow>rows_since d uid start_iso.
                          if t_type t = Income then finite_value (t_amount t) else 0)),
           Some (Finite (\<Sum>t\<leftarrow>rows_since d uid start_iso.
                          if t_type t = Expense then - finite_value (t_amount t) else 0)),
           Some (Finite (\<Sum>t\<leftarrow>rows_since d uid start_iso. finite_value (t_amount t))))"
proof -
  define rs where "rs = rows_since d uid start_iso"
  have ok': "list_all signed_ok rs" and wh': "list_all whole_amount rs" and ne': "rs \<noteq> []"
    and small': "(\<Sum>t\<leftarrow>rs. \<bar>finite_value (t_amount t)\<bar>) < 2 ^ 53"
    using ok wh ne small by (simp_all add: rs_def)
  have "list_all (\<lambda>t. signed_ok t \<and> whole_amount t) rs"
    using ok' wh' by (simp add: list_all_iff)
  then have whole: "list_all (\<lambda>t. \<exists>k :: int. t_amount t = Some (Finite (of_int k))) rs"
  proof (rule list_all_mono)
    fix t
    assume t: "signed_ok t \<and> whole_amount t"
    then obtain q where q: "t_amount t = Some (Finite q)"
      using signed_ok_finite by blast
    with t have "q = of_int \<lfloor>q\<rfloor>"
      by (simp add: whole_amount_def finite_value_def)
    with q show "\<exists>k :: int. t_amount t = Some (Finite (of_int k))"
      by metis
  qed
  have zero: "finite_value (Some (Finite 0)) = 0"
    by (simp add: finite_value_def)
  have whole_if: "list_all (\<lambda>t. \<exists>k :: int. (if t_type t = k' then t_amount t else Some (Finite 0)) =
                         Some (Finite (of_int k))) rs" for k'
    using whole by (rule list_all_mono) (auto intro: exI [of _ 0])
  have "(\<Sum>t\<leftarrow>rs. \<bar>finite_value (if t_type t = k' then t_amount t else Some (Finite 0))\<bar>) \<le>
        (\<Sum>t\<leftarrow>rs. \<bar>finite_value (t_amount t)\<bar>)" for k'
    by (rule sum_list_mono) (simp add: zero)
  then have small_if:
    "(\<Sum>t\<leftarrow>rs. \<bar>finite_value (if t_type t = k' then t_amount t else Some (Finite 0))\<bar>) < 2 ^ 53"
    for k'
    using small' by (rule le_less_trans)
  have value_if: "(\<Sum>t\<leftarrow>rs. finite_value (if t_type t = k' then t_amount t else Some (Finite 0)))
      = (\<Sum>t\<leftarrow>rs. if t_type t = k' then finite_value (t_amount t) else 0)" for k'
    by (induction rs) (simp_all add: zero)
  obtain Ki :: int where Ki: "\<bar>Ki\<bar> < 2 ^ 53"
      "(\<Sum>t\<leftarrow>rs. if t_type t = Income then finite_value (t_amount t) else 0) = of_int Ki"
      "sql_sum (map (\<lambda>t. if t_type t = Income then t_amount t else Some (Finite 0)) rs) =
         Some (Finite (of_int Ki))"
    using sql_sum_whole [OF whole_if ne' small_if, of Income] unfolding value_if by blast
  have inc: "sql_round2 (sql_sum (map (\<lambda>t. if t_type t = Income then t_amount t
                                            else Some (Finite 0)) rs)) =
      Some (Finite (\<Sum>t\<leftarrow>rs. if t_type t = Income then finite_value (t_amount t) else 0))"
    using sql_round2_whole [OF Ki(1)] by (simp only: Ki(2) Ki(3))
  obtain Ke :: int where Ke: "\<bar>Ke\<bar> < 2 ^ 53"
      "(\<Sum>t\<leftarrow>rs. if t_type t = Expense then finite_value (t_amount t) else 0) = of_int Ke"
      "sql_sum (map (\<lambda>t. if t_type t = Expense then t_amount t else Some (Finite 0)) rs) =
         Some (Finite (of_int Ke))"
    using sql_sum_whole [OF whole_if ne' small_if, of Expense] unfolding value_if by blast
  have "(of_int Ke :: rat) \<le> 0"
    using expense_sum_nonpos [OF ok'] by (simp only: Ke(2))
  then have nonpos: "Ke \<le> 0"
    by simp
  have neg: "(\<Sum>t\<leftarrow>rs. if t_type t = Expense then - finite_value (t_amount t) else 0) =
             - (\<Sum>t\<leftarrow>rs. if t_type t = Expense then finite_value (t_amount t) else 0)"
    by (induction rs) simp_all
  have "sql_abs (Some (Finite (of_int Ke))) = Some (Finite (of_int (- Ke)))"
    using nonpos by (simp add: sql_abs_def)
  moreover have "sql_round2 (Some (Finite (of_int (- Ke)))) = Some (Finite (of_int (- Ke)))"
    using Ke(1) by (intro sql_round2_whole) simp
  moreover have "(of_int (- Ke) :: rat) =
      (\<Sum>t\<leftarrow>rs. if t_type t = Expense then - finite_value (t_amount t) else 0)"
    by (simp only: neg Ke(2) of_int_minus)
  ultimately have expn:
    "sql_round2 (sql_abs (sql_sum (map (\<lambda>t. if t_type t = Expense then t_amount t
                                             else Some (Finite 0)) rs))) =
      Some (Finite (\<Sum>t\<leftarrow>rs. if t_type t = Expense then - finite_value (t_amount t) else 0))"
    by (simp only: Ke(3))
  obtain Kn :: int where Kn: "\<bar>Kn\<bar> < 2 ^ 53"
      "(\<Sum>t\<leftarrow>rs. finite_value (t_amount t)) = of_int Kn"
      "sql_sum (map t_amount rs) = Some (Finite (of_int Kn))"
    using sql_sum_whole [OF whole ne' small'] by blast
  have net: "sql_round2 (sql_sum (map t_amount rs)) =
      Some (Finite (\<Sum>t\<leftarrow>rs. finite_value (t_amount t)))"
    using sql_round2_whole [OF Kn(1)] by (simp only: Kn(2) Kn(3))
  show ?thesis
    unfolding get_totals_def Let_def rs_def [symmetric]
    by (simp only: inc expn net)
qed

text \<open>The rows from a start are among the rows of the user.\<close>

lemma abs_sum_since:
  "(\<Sum>t\<leftarrow>filter (\<lambda>t. P t \<and> Q t) xs. \<bar>f t\<bar>) \<le> (\<Sum>t\<leftarrow>filter P xs. \<bar>f t :: rat\<bar>)"
proof (induction xs)
  case Nil
  then show ?case by simp
next
  case (Cons x xs)
  have "0 \<le> \<bar>f x\<bar>" by simp
  with Cons show ?case by (cases "P x"; cases "Q x") (simp_all add: add_increasing)
qed

lemma cmd_export_rows:
  assumes "cmd_export d now uid args = (Inr (period, rows), d')"
      and "period_bounds period = Inr (start_iso, end_iso)"
  shows "rows = map export_row_of (month_rows d uid start_iso end_iso)"
  using assms
  by (auto simp add: cmd_export_def Let_def split: sum.splits prod.splits)

lemma export_sums:
  assumes cats: "categories_ok d"
      and ok: "list_all signed_ok (rows_since d uid start_iso)"
      and bounded: "none_since d uid end_iso"
  shows "export_net (map export_row_of (month_rows d uid start_iso end_iso)) =
           (\<Sum>t\<leftarrow>rows_since d uid start_iso. finite_value (t_amount t))"
    and "export_income (map export_row_of (month_rows d uid start_iso end_iso)) =
           (\<Sum>t\<leftarrow>rows_since d uid start_iso.
              if t_type t = Income then finite_value (t_amount t) else 0)"
    and "export_expense (map export_row_of (month_rows d uid start_iso end_iso)) =
           (\<Sum>t\<leftarrow>rows_since d uid start_iso.
              if t_type t = Expense then - finite_value (t_amount t) else 0)"
proof -
  let ?rows = "month_rows d uid start_iso end_iso"
  let ?rs = "rows_since d uid start_iso"
  note sel = rows_since_bounded [OF bounded, of start_iso]
  have "export_net (map export_row_of ?rows) =
        (\<Sum>r\<leftarrow>?rows. (\<lambda>t. if t_type t = Income then finite_value (sql_abs (t_amount t))
                          else - finite_value (sql_abs (t_amount t))) (fst r))"
    by (simp add: export_net_def signed_value_def export_value_def export_row_of_def comp_def
        cong: if_cong)
  also have "\<dots> = (\<Sum>t\<leftarrow>?rs. if t_type t = Income then finite_value (sql_abs (t_amount t))
                          else - finite_value (sql_abs (t_amount t)))"
    using month_rows_sum [OF cats, of "\<lambda>t. if t_type t = Income then finite_value (sql_abs (t_amount t)) else - finite_value (sql_abs (t_amount t))" uid start_iso end_iso]
    by (simp add: sel)
  also have "\<dots> = (\<Sum>t\<leftarrow>?rs. finite_value (t_amount t))"
    by (rule sum_list_cong_all, rule list_all_mono [OF ok]) (rule signed_ok_values(1))
  finally show "export_net (map export_row_of ?rows) = (\<Sum>t\<leftarrow>?rs. finite_value (t_amount t))" .
  have "export_income (map export_row_of ?rows) =
        (\<Sum>r\<leftarrow>?rows. (\<lambda>t. if t_type t = Income then finite_value (sql_abs (t_amount t)) else 0)
                       (fst r))"
    by (simp add: export_income_def sum_list_filter_if export_value_def export_row_of_def comp_def
        cong: if_cong)
  also have "\<dots> = (\<Sum>t\<leftarrow>?rs. if t_type t = Income then finite_value (sql_abs (t_amount t)) else 0)"
    using month_rows_sum [OF cats, of "\<lambda>t. if t_type t = Income then finite_value (sql_abs (t_amount t)) else 0" uid start_iso end_iso]
    by (simp add: sel)
  also have "\<dots> = (\<Sum>t\<leftarrow>?rs. if t_type t = Income then finite_value (t_amount t) else 0)"
    by (rule sum_list_cong_all, rule list_all_mono [OF ok]) (rule signed_ok_values(2))
  finally show "export_income (map export_row_of ?rows) =
      (\<Sum>t\<leftarrow>?rs. if t_type t = Income then finite_value (t_amount t) else 0)" .
  have "export_expense (map export_row_of ?rows) =
        (\<Sum>r\<leftarrow>?rows. (\<lambda>t. if t_type t = Expense then finite_value (sql_abs (t_amount t)) else 0)
                       (fst r))"
    by (simp add: export_expense_def sum_list_filter_if export_value_def export_row_of_def comp_def
        cong: if_cong)
  also have "\<dots> = (\<Sum>t\<leftarrow>?rs. if t_type t = Expense then finite_value (sql_abs (t_amount t)) else 0)"
    using month_rows_sum [OF cats, of "\<lambda>t. if t_type t = Expense then finite_value (sql_abs (t_amount t)) else 0" uid start_iso end_iso]
    by (simp add: sel)
  also have "\<dots> = (\<Sum>t\<leftarrow>?rs. if t_type t = Expense then - finite_value (t_amount t) else 0)"
    by (rule sum_list_cong_all, rule list_all_mono [OF ok]) (rule signed_ok_values(3))
  finally show "export_expense (map export_row_of ?rows) =
      (\<Sum>t\<leftarrow>?rs. if t_type t = Expense then - finite_value (t_amount t) else 0)" .
qed

text \<open>
  Claim C3, amended. For a database in which every transaction's category is one row of
  \<open>categories\<close>, a user whose stored amounts are whole numbers with the sign of their
  kind and absolute values that add up to less than \<open>2\<^sup>5\<^sup>3\<close>, who has no transaction at or
  after the end of the period, and an export of the period that is not empty: the
  exported amounts summed again (the income rows, the expense rows, and all rows with
  the sign restored) are the income, the expense and the net that \<open>get_totals\<close> returns
  from the period's start. Transactions of earlier months do not matter.
\<close>

theorem export_matches_totals:
  assumes cats: "categories_ok d"
      and signed: "ledger_signed d uid"
      and whole: "ledger_whole d uid"
      and export: "cmd_export d now uid args = (Inr (period, rows), d')"
      and bounds: "period_bounds period = Inr (start_iso, end_iso)"
      and bounded: "none_since d uid end_iso"
      and nonempty: "rows \<noteq> []"
  shows "get_totals d uid start_iso =
           Some (Some (Finite (export_income rows)),
                 Some (Finite (export_expense rows)),
                 Some (Finite (export_net rows)))"
proof -
  have rows: "rows = map export_row_of (month_rows d uid start_iso end_iso)"
    using export bounds by (rule cmd_export_rows)
  have ok: "list_all signed_ok (rows_since d uid start_iso)"
    using signed by (auto simp add: ledger_signed_def rows_since_def list_all_iff)
  have wh: "list_all whole_amount (rows_since d uid start_iso)"
    using whole by (auto simp add: ledger_whole_def Let_def rows_since_def list_all_iff)
  have "(\<Sum>t\<leftarrow>rows_since d uid start_iso. \<bar>finite_value (t_amount t)\<bar>) \<le>
        (\<Sum>t\<leftarrow>filter (\<lambda>t. t_user_id t = uid) (transactions d). \<bar>finite_value (t_amount t)\<bar>)"
    unfolding rows_since_def by (rule abs_sum_since)
  also have "\<dots> < 2 ^ 53"
    using whole by (simp add: ledger_whole_def Let_def)
  finally have small: "(\<Sum>t\<leftarrow>rows_since d uid start_iso. \<bar>finite_value (t_amount t)\<bar>) < 2 ^ 53" .
  have ne: "rows_since d uid start_iso \<noteq> []"
  proof
    assume "rows_since d uid start_iso = []"
    then have "month_rows d uid start_iso end_iso = []"
      using rows_since_bounded [OF bounded, of start_iso] by (simp add: month_rows_empty)
    with rows nonempty show False by simp
  qed
  show ?thesis
    unfolding rows export_sums [OF cats ok bounded]
    using ok wh small ne by (rule get_totals_whole)
qed

lemma january_2024:
  "period_arg now [''2024-01''] = ''2024-01''"
  "period_bounds ''2024-01'' = Inr (''2024-01-01T00:00:00Z'', ''2024-02-01T00:00:00Z'')"
  by (simp_all add: period_arg_def strip_def is_space_def py_int_examples format_0d_def zfill_def
      dec.simps digit_char_def period_bounds_def month_bounds_utc_def mk_datetime_def
      days_in_month_def is_leap_def iso_utc_def)

lemma db_two_months_value:
  "db_two_months =
     \<lparr>users = [\<lparr>u_id = 1, u_digest_hour_utc = Some 18\<rparr>],
      categories = [\<lparr>c_id = 1, c_user_id = 1, c_name = ''food'', c_type = Expense\<rparr>],
      transactions =
        [\<lparr>t_id = 1, t_user_id = 1, t_amount = Some (Finite (- 100)), t_category_id = 1,
          t_ts = ''2024-01-15T10:00:00Z'', t_note = ''food'', t_type = Expense\<rparr>,
         \<lparr>t_id = 2, t_user_id = 1, t_amount = Some (Finite (- 50)), t_category_id = 1,
          t_ts = ''2024-02-10T10:00:00Z'', t_note = ''food'', t_type = Expense\<rparr>],
      budgets = [], seq_categories = 1, seq_transactions = 2, seq_budgets = 0\<rparr>"
  by (simp add: db_two_months_def text_defs time_defs store_defs Let_def)

lemma db_two_months_export:
  "cmd_export db_two_months now 1 [''2024-01''] =
     (Inr (''2024-01'', [\<lparr>e_ts = ''2024-01-15T10:00:00Z'', e_type = Expense,
                          e_amount = Some (Finite 100), e_category = ''food'', e_note = ''food''\<rparr>]),
      ensure_user db_two_months 1)"
  "cmd_export db_two_months now 1 [''2024-02''] =
     (Inr (''2024-02'', [\<lparr>e_ts = ''2024-02-10T10:00:00Z'', e_type = Expense,
                          e_amount = Some (Finite 50), e_category = ''food'', e_note = ''food''\<rparr>]),
      ensure_user db_two_months 1)"
  by (simp_all add: cmd_export_def january_2024 period_arg_examples period_bounds_examples
      month_rows_def export_row_of_def sql_abs_def db_two_months_value)

lemma db_two_months_totals:
  "get_totals db_two_months 1 ''2024-01-01T00:00:00Z'' =
     Some (Some (Finite 0), Some (Finite 150), Some (Finite (- 150)))"
  "get_totals db_two_months 1 ''2024-02-01T00:00:00Z'' =
     Some (Some (Finite 0), Some (Finite 50), Some (Finite (- 50)))"
  by (simp_all add: db_two_months_value query_defs)

text \<open>
  Claim C3 as stated fails when the user has a transaction after the period:
  \<open>get_totals\<close> has no upper bound. With 100 spent in January 2024 and 50 in February,
  the export of January sums to \<open>-100\<close>, and the totals from January's start are
  \<open>-150\<close>.
\<close>

theorem export_round_trip_counterexample:
  "fst (cmd_export db_two_months (utc 2024 2 20 12 0 0 0) 1 [''2024-01'']) =
     Inr (''2024-01'', [\<lparr>e_ts = ''2024-01-15T10:00:00Z'', e_type = Expense,
                         e_amount = Some (Finite 100), e_category = ''food'', e_note = ''food''\<rparr>]) \<and>
   period_bounds ''2024-01'' = Inr (''2024-01-01T00:00:00Z'', ''2024-02-01T00:00:00Z'') \<and>
   export_net [\<lparr>e_ts = ''2024-01-15T10:00:00Z'', e_type = Expense,
                e_amount = Some (Finite 100), e_category = ''food'', e_note = ''food''\<rparr>] = - 100 \<and>
   export_expense [\<lparr>e_ts = ''2024-01-15T10:00:00Z'', e_type = Expense,
                    e_amount = Some (Finite 100), e_category = ''food'', e_note = ''food''\<rparr>] = 100 \<and>
   get_totals db_two_months 1 ''2024-01-01T00:00:00Z'' =
     Some (Some (Finite 0), Some (Finite 150), Some (Finite (- 150))) \<and>
   Finite (- 150) \<noteq> Finite (- 100)"
  by (simp add: db_two_months_export january_2024 db_two_months_totals export_net_def
      export_expense_def signed_value_def export_value_def finite_value_def)

theorem export_matches_totals_witness:
  "categories_ok db_two_months \<and> ledger_signed db_two_months 1 \<and> ledger_whole db_two_months 1 \<and>
   cmd_export db_two_months (utc 2024 2 20 12 0 0 0) 1 [''2024-02''] =
     (Inr (''2024-02'', [\<lparr>e_ts = ''2024-02-10T10:00:00Z'', e_type = Expense,
                          e_amount = Some (Finite 50), e_category = ''food'', e_note = ''food''\<rparr>]),
      ensure_user db_two_months 1) \<and>
   period_bounds ''2024-02'' = Inr (''2024-02-01T00:00:00Z'', ''2024-03-01T00:00:00Z'') \<and>
   none_since db_two_months 1 ''2024-03-01T00:00:00Z'' \<and>
   get_totals db_two_months 1 ''2024-02-01T00:00:00Z'' =
     Some (Some (Finite 0), Some (Finite 50), Some (Finite (- 50)))"
proof -
  have cats: "categories_ok db_two_months"
    by (simp add: categories_ok_def db_two_months_value)
  have signed: "ledger_signed db_two_months 1"
    by (simp add: ledger_signed_def signed_ok_def db_two_months_value)
  have whole: "ledger_whole db_two_months 1"
    by (simp add: ledger_whole_def whole_amount_def finite_value_def db_two_months_value)
  have bounded: "none_since db_two_months 1 ''2024-03-01T00:00:00Z''"
    by (simp add: none_since_def db_two_months_value)
  note matches = export_matches_totals [OF cats signed whole db_two_months_export(2)
      period_bounds_examples(4) bounded]
  from cats signed whole bounded matches show ?thesis
    by (simp add: db_two_months_export period_bounds_examples db_two_months_totals)
qed

lemma db_large_income_value:
  "db_large_income =
     \<lparr>users = [\<lparr>u_id = 1, u_digest_hour_utc = Some 18\<rparr>],
      categories = [\<lparr>c_id = 1, c_user_id = 1, c_name = ''pay'', c_type = Income\<rparr>],
      transactions =
        [\<lparr>t_id = 1, t_user_id = 1, t_amount = Some (Finite 10000000000000000), t_category_id = 1,
          t_ts = ''2024-01-15T10:00:00Z'', t_note = ''pay'', t_type = Income\<rparr>,
         \<lparr>t_id = 2, t_user_id = 1, t_amount = Some (Finite 1), t_category_id = 1,
          t_ts = ''2024-01-15T11:00:00Z'', t_note = ''pay'', t_type = Income\<rparr>],
      budgets = [], seq_categories = 1, seq_transactions = 2, seq_budgets = 0\<rparr>"
  by (simp add: db_large_income_def text_defs time_defs store_defs Let_def b64_large)

lemma db_large_income_export:
  "cmd_export db_large_income now 1 [''2024-01''] =
     (Inr (''2024-01'',
           [\<lparr>e_ts = ''2024-01-15T10:00:00Z'', e_type = Income,
             e_amount = Some (Finite 10000000000000000), e_category = ''pay'', e_note = ''pay''\<rparr>,
            \<lparr>e_ts = ''2024-01-15T11:00:00Z'', e_type = Income,
             e_amount = Some (Finite 1), e_category = ''pay'', e_note = ''pay''\<rparr>]),
      ensure_user db_large_income 1)"
  by (simp add: cmd_export_def january_2024 month_rows_def export_row_of_def sql_abs_def
      db_large_income_value)

lemma db_large_income_totals:
  "get_totals db_large_income 1 ''2024-01-01T00:00:00Z'' =
     Some (Some (Finite 10000000000000000), Some (Finite 0), Some (Finite 10000000000000000))"
  by (simp add: db_large_income_value query_defs b64_large)

text \<open>
  The bound on the amounts is needed. With incomes of \<open>10\<^sup>1\<^sup>6\<close> and \<open>1\<close> in January 2024 every
  other hypothesis holds, the exported incomes add up to \<open>10\<^sup>1\<^sup>6 + 1\<close>, and the income of
  \<open>get_totals\<close> is \<open>10\<^sup>1\<^sup>6\<close>: the sum is rounded to binary64.
\<close>

lemma large_sums_round:
  "categories_ok db_large_income \<and> ledger_signed db_large_income 1 \<and>
   none_since db_large_income 1 ''2024-02-01T00:00:00Z'' \<and>
   \<not> ledger_whole db_large_income 1 \<and>
   export_income (snd (projr (fst (cmd_export db_large_income now 1 [''2024-01''])))) =
     10000000000000001 \<and>
   get_totals db_large_income 1 ''2024-01-01T00:00:00Z'' =
     Some (Some (Finite 10000000000000000), Some (Finite 0), Some (Finite 10000000000000000))"
  by (simp add: db_large_income_export db_large_income_totals export_income_def export_value_def
      finite_value_def)
     (simp add: db_large_income_value categories_ok_def ledger_signed_def signed_ok_def
      none_since_def ledger_whole_def whole_amount_def finite_value_def)

end
